theory Spec2Isabelle
  imports Main "HOL-Library.Sublist"
begin

section \<open>The NBA data lake set-up script (nba\_data\_lake.py)\<close>

text \<open>
  The script provisions an S3 bucket, a Glue database and table and an Athena output
  location, and loads one data set fetched over HTTP.  Every function of the script is
  embedded as a function that returns the events it produced (the library calls it
  issued, the lines it printed) together with its result or the exception it raised.
  What a library call answers is not decided by the script: it is an argument of the
  embedded function, so that every theorem holds for every answer of the provider.
\<close>

subsection \<open>Exceptions\<close>

text \<open>
  The exception classes the script names, together with the library classes between them
  and \<open>Exception\<close>.  \<open>ancestors\<close> lists, for each class, the class itself and every
  class it inherits from (botocore.exceptions, requests.exceptions and the builtins):
  an \<open>except C\<close> clause handles an exception exactly when \<open>C\<close> is among the ancestors of
  its class.  Only instances of \<open>Exception\<close> are modelled: these are what a library call
  raises when it fails.
\<close>

datatype exn_class =
    Exception
  | TypeError
  | ValueError
  | BotoCoreError
  | NoCredentialsError
  | PartialCredentialsError
  | ClientError
  | BucketAlreadyOwnedByYou
  | AlreadyExistsException
  | RequestException
  | HTTPError
  | ConnectionError
  | Timeout
  | ConnectTimeout
  | ReadTimeout

fun ancestors :: "exn_class \<Rightarrow> exn_class list" where
  "ancestors Exception = [Exception]"
| "ancestors TypeError = [TypeError, Exception]"
| "ancestors ValueError = [ValueError, Exception]"
| "ancestors BotoCoreError = [BotoCoreError, Exception]"
| "ancestors NoCredentialsError = [NoCredentialsError, BotoCoreError, Exception]"
| "ancestors PartialCredentialsError = [PartialCredentialsError, BotoCoreError, Exception]"
| "ancestors ClientError = [ClientError, Exception]"
| "ancestors BucketAlreadyOwnedByYou = [BucketAlreadyOwnedByYou, ClientError, Exception]"
| "ancestors AlreadyExistsException = [AlreadyExistsException, ClientError, Exception]"
| "ancestors RequestException = [RequestException, Exception]"
| "ancestors HTTPError = [HTTPError, RequestException, Exception]"
| "ancestors ConnectionError = [ConnectionError, RequestException, Exception]"
| "ancestors Timeout = [Timeout, RequestException, Exception]"
| "ancestors ConnectTimeout =
     [ConnectTimeout, ConnectionError, Timeout, RequestException, Exception]"
| "ancestors ReadTimeout = [ReadTimeout, Timeout, RequestException, Exception]"

text \<open>An exception object: its class and the text \<open>str(e)\<close> gives.\<close>

record exn =
  cls :: exn_class
  msg :: string

definition isinstance :: "exn \<Rightarrow> exn_class \<Rightarrow> bool" where
  "isinstance e C = (C \<in> set (ancestors (cls e)))"

subsection \<open>Python values\<close>

text \<open>
  The values a decoded JSON body is made of, and two objects that are not: \<open>PObj\<close>, an
  instance of a class the JSON encoder has no rule for and that is neither iterable nor
  sized (\<open>object()\<close>), and \<open>PCycle\<close>, the list whose only item is the list itself
  (\<open>x = []; x.append(x)\<close>).  A dict is the list of its items in insertion order.  Strings
  are lists of characters with code points below 256.  Floating-point numbers are left
  out.
\<close>

datatype pykey = KStr string | KInt int | KBool bool | KNone | KObj

datatype pyval =
    PNone
  | PBool bool
  | PInt int
  | PStr string
  | PList "pyval list"
  | PDict "(pykey \<times> pyval) list"
  | PObj
  | PCycle

text \<open>The truth value \<open>if x:\<close> tests.\<close>

fun truthy :: "pyval \<Rightarrow> bool" where
  "truthy PNone = False"
| "truthy (PBool b) = b"
| "truthy (PInt i) = (i \<noteq> 0)"
| "truthy (PStr s) = (s \<noteq> [])"
| "truthy (PList xs) = (xs \<noteq> [])"
| "truthy (PDict kvs) = (kvs \<noteq> [])"
| "truthy PObj = True"
| "truthy PCycle = True"

text \<open>
  What \<open>response.json()\<close> can return: the decoder builds nothing but these, with string
  keys in every dict, and \<open>of_json\<close> is the same value among all Python values.
\<close>

datatype json =
    JNull
  | JBool bool
  | JInt int
  | JStr string
  | JList "json list"
  | JDict "(string \<times> json) list"

fun of_json :: "json \<Rightarrow> pyval"
  and of_json_list :: "json list \<Rightarrow> pyval list"
  and of_json_items :: "(string \<times> json) list \<Rightarrow> (pykey \<times> pyval) list" where
  "of_json JNull = PNone"
| "of_json (JBool b) = PBool b"
| "of_json (JInt i) = PInt i"
| "of_json (JStr s) = PStr s"
| "of_json (JList xs) = PList (of_json_list xs)"
| "of_json (JDict kvs) = PDict (of_json_items kvs)"
| "of_json_list [] = []"
| "of_json_list (x # xs) = of_json x # of_json_list xs"
| "of_json_items [] = []"
| "of_json_items ((k, v) # kvs) = (KStr k, of_json v) # of_json_items kvs"

subsection \<open>Events and the result of a statement\<close>

text \<open>
  \<open>pystr\<close> is what an f-string writes for a configuration value: \<open>os.getenv\<close> gives
  \<open>None\<close> for a variable that is not set, and \<open>None\<close> is written as the word None.
\<close>

definition pystr :: "string option \<Rightarrow> string" where
  "pystr v = (case v of None \<Rightarrow> ''None'' | Some s \<Rightarrow> s)"

record column =
  col_Name :: string
  col_Type :: string

text \<open>
  The \<open>TableInput\<close> argument of \<open>create_table\<close>; the fields of its nested
  \<open>StorageDescriptor\<close> and \<open>SerdeInfo\<close> dictionaries are listed flat.
\<close>

record table_input =
  Name :: string
  Columns :: "column list"
  Location :: string
  InputFormat :: string
  OutputFormat :: string
  SerializationLibrary :: string
  TableType :: string

text \<open>
  One constructor for each library call the script makes, with the keyword arguments it
  passes, in the order of the source:
  \<^item> \<open>S3CreateBucket Bucket CreateBucketConfiguration\<close>, the second argument \<open>None\<close>
    when the keyword is absent and \<open>Some lc\<close> for \<open>{"LocationConstraint": lc}\<close>;
  \<^item> \<open>GlueCreateDatabase Name Description\<close>;
  \<^item> \<open>RequestsGet url headers\<close>;
  \<^item> \<open>S3PutObject Bucket Key Body\<close>;
  \<^item> \<open>GlueCreateTable DatabaseName TableInput\<close>;
  \<^item> \<open>AthenaStartQueryExecution QueryString Database OutputLocation\<close>.
\<close>

datatype event =
    Print string
  | Sleep nat
  | S3CreateBucket "string option" "string option option"
  | GlueCreateDatabase "string option" string
  | RequestsGet "string option" "(string \<times> string option) list"
  | S3PutObject "string option" string string
  | GlueCreateTable "string option" table_input
  | AthenaStartQueryExecution string "string option" string

text \<open>
  A statement yields the events it produced and either the exception that left it
  (\<open>Inl\<close>) or its value (\<open>Inr\<close>).
\<close>

type_synonym 'a io = "event list \<times> (exn + 'a)"

definition ret :: "'a \<Rightarrow> 'a io" where
  "ret x = ([], Inr x)"

definition emit :: "event \<Rightarrow> unit io" where
  "emit ev = ([ev], Inr ())"

text \<open>A library call: the call is recorded, then it returns or raises as the provider answers.\<close>

definition call :: "event \<Rightarrow> exn option \<Rightarrow> unit io" where
  "call ev answer = ([ev], case answer of None \<Rightarrow> Inr () | Some e \<Rightarrow> Inl e)"

definition bind_io :: "'a io \<Rightarrow> ('a \<Rightarrow> 'b io) \<Rightarrow> 'b io" where
  "bind_io m f =
     (case m of
        (t, Inl e) \<Rightarrow> (t, Inl e)
      | (t, Inr x) \<Rightarrow> (case f x of (t', r) \<Rightarrow> (t @ t', r)))"

text \<open>Statements one after the other; the first exception ends the block.\<close>

fun block :: "unit io list \<Rightarrow> unit io" where
  "block [] = ret ()"
| "block (m # ms) = bind_io m (\<lambda>_. block ms)"

text \<open>\<open>try: m except ...: h\<close>, the handler chain \<open>h\<close> given the exception.\<close>

definition try_except :: "'a io \<Rightarrow> (exn \<Rightarrow> 'a io) \<Rightarrow> 'a io" where
  "try_except m h =
     (case m of
        (t, Inl e) \<Rightarrow> (case h e of (t', r) \<Rightarrow> (t @ t', r))
      | (t, Inr x) \<Rightarrow> (t, Inr x))"

definition raise :: "exn \<Rightarrow> 'a io" where
  "raise e = ([], Inl e)"

definition events :: "'a io \<Rightarrow> event list" where
  "events m = fst m"

definition outcome :: "'a io \<Rightarrow> exn + 'a" where
  "outcome m = snd m"

subsection \<open>Configuration\<close>

text \<open>The module-level variables read from the environment; each may be unset.\<close>

record config =
  region :: "string option"
  bucket_name :: "string option"
  glue_database_name :: "string option"
  api_key :: "string option"
  nba_endpoint :: "string option"

definition athena_output_location :: "config \<Rightarrow> string" where
  "athena_output_location cfg = ''s3://'' @ pystr (bucket_name cfg) @ ''/athena-results/''"

definition sq :: string where
  "sq = [CHR 0x27]"

subsection \<open>create\_s3\_bucket\<close>

definition create_s3_bucket :: "config \<Rightarrow> exn option \<Rightarrow> unit io" where
  "create_s3_bucket cfg answer =
     try_except
       (block
          [if region cfg = Some ''us-east-1''
           then call (S3CreateBucket (bucket_name cfg) None) answer
           else call (S3CreateBucket (bucket_name cfg) (Some (region cfg))) answer,
           emit (Print (''S3 bucket '' @ sq @ pystr (bucket_name cfg) @ sq
                        @ '' created successfully.''))])
       (\<lambda>e. if isinstance e BucketAlreadyOwnedByYou
             then emit (Print (''S3 bucket '' @ sq @ pystr (bucket_name cfg) @ sq
                               @ '' already exists and is owned by you.''))
             else if isinstance e NoCredentialsError
             then emit (Print ''AWS credentials not found. Please configure your credentials.'')
             else if isinstance e Exception
             then emit (Print (''Error creating S3 bucket: '' @ msg e))
             else raise e)"

subsection \<open>create\_glue\_database\<close>

definition create_glue_database :: "config \<Rightarrow> exn option \<Rightarrow> unit io" where
  "create_glue_database cfg answer =
     try_except
       (block
          [call (GlueCreateDatabase (glue_database_name cfg)
                   ''Glue database for NBA sports analytics.'') answer,
           emit (Print (''Glue database '' @ sq @ pystr (glue_database_name cfg) @ sq
                        @ '' created successfully.''))])
       (\<lambda>e. if isinstance e AlreadyExistsException
             then emit (Print (''Glue database '' @ sq @ pystr (glue_database_name cfg) @ sq
                               @ '' already exists.''))
             else if isinstance e Exception
             then emit (Print (''Error creating Glue database: '' @ msg e))
             else raise e)"

subsection \<open>fetch\_nba\_data\<close>

text \<open>
  The response object \<open>requests.get\<close> returns: what its \<open>raise_for_status()\<close> does
  (\<open>None\<close>: it returns) and what its \<open>json()\<close> gives.
\<close>

record response =
  raise_for_status_answer :: "exn option"
  json_answer :: "exn + json"

text \<open>A method call on an object already at hand: no event, only its value or exception.\<close>

definition lift :: "exn + 'a \<Rightarrow> 'a io" where
  "lift r = ([], r)"

text \<open>A library call that returns a value.\<close>

definition call_val :: "event \<Rightarrow> exn + 'a \<Rightarrow> 'a io" where
  "call_val ev answer = ([ev], answer)"

text \<open>
  The try statement gives \<open>Some v\<close> when its body reached \<open>return v\<close> and \<open>None\<close> when a
  handler ran and control falls through to the \<open>return []\<close> after it.
\<close>

definition fetch_nba_data :: "config \<Rightarrow> exn + response \<Rightarrow> pyval io" where
  "fetch_nba_data cfg answer =
     bind_io
       (try_except
          (bind_io (call_val (RequestsGet (nba_endpoint cfg)
                                [(''Ocp-Apim-Subscription-Key'', api_key cfg)]) answer)
             (\<lambda>response.
                bind_io (lift (case raise_for_status_answer response of
                                 None \<Rightarrow> Inr () | Some e \<Rightarrow> Inl e))
                  (\<lambda>_. bind_io (emit (Print ''Fetched NBA data successfully.''))
                    (\<lambda>_. bind_io (lift (json_answer response))
                      (\<lambda>v. ret (Some (of_json v)))))))
          (\<lambda>e. if isinstance e HTTPError
                then bind_io (emit (Print (''HTTP error occurred: '' @ msg e))) (\<lambda>_. ret None)
                else if isinstance e ConnectionError
                then bind_io (emit (Print
                       ''Network connection error. Please check your internet connection.''))
                       (\<lambda>_. ret None)
                else if isinstance e Timeout
                then bind_io (emit (Print ''Request timed out. Please try again.''))
                       (\<lambda>_. ret None)
                else if isinstance e RequestException
                then bind_io (emit (Print (''An error occurred: '' @ msg e))) (\<lambda>_. ret None)
                else if isinstance e Exception
                then bind_io (emit (Print (''Error fetching NBA data: '' @ msg e)))
                       (\<lambda>_. ret None)
                else raise e))
       (\<lambda>returned. case returned of Some v \<Rightarrow> ret v | None \<Rightarrow> ret (PList []))"

subsection \<open>json.dumps\<close>

text \<open>
  The encoder of the standard library with its default options: ASCII output
  (\<open>ensure_ascii\<close>), the separators \<open>", "\<close> and \<open>": "\<close>, no indentation, dict items in
  insertion order, keys of type int, bool and None written as strings, a \<open>TypeError\<close>
  for a value or a key of any other type, and a \<open>ValueError\<close> for a container met again
  inside itself (\<open>check_circular\<close>).  The limits of the interpreter itself (the recursion
  limit, the digit limit of Python 3.11 on writing an integer) are not part of the model.
\<close>

definition digit_char :: "nat \<Rightarrow> char" where
  "digit_char d = char_of (48 + d)"

fun digits_of :: "nat \<Rightarrow> string" where
  "digits_of n = (if n < 10 then [digit_char n] else digits_of (n div 10) @ [digit_char (n mod 10)])"

declare digits_of.simps [simp del]

definition show_int :: "int \<Rightarrow> string" where
  "show_int i = (if i < 0 then CHR ''-'' # digits_of (nat (- i)) else digits_of (nat i))"

definition hex_digit :: "nat \<Rightarrow> char" where
  "hex_digit d = (if d < 10 then char_of (48 + d) else char_of (87 + d))"

text \<open>
  One character of a string: the short escapes, the character itself when it is
  printable ASCII (space to tilde), and \<open>\u00XX\<close> otherwise.
\<close>

definition escape_char :: "char \<Rightarrow> string" where
  "escape_char c =
     (if c = CHR 0x22 then [CHR 0x5C, CHR 0x22]
      else if c = CHR 0x5C then [CHR 0x5C, CHR 0x5C]
      else if c = CHR 0x0A then [CHR 0x5C, CHR ''n'']
      else if c = CHR 0x0D then [CHR 0x5C, CHR ''r'']
      else if c = CHR 0x09 then [CHR 0x5C, CHR ''t'']
      else if c = CHR 0x08 then [CHR 0x5C, CHR ''b'']
      else if c = CHR 0x0C then [CHR 0x5C, CHR ''f'']
      else if 32 \<le> (of_char c :: nat) \<and> (of_char c :: nat) \<le> 126 then [c]
      else [CHR 0x5C, CHR ''u'', CHR ''0'', CHR ''0'',
            hex_digit ((of_char c :: nat) div 16), hex_digit ((of_char c :: nat) mod 16)])"

definition encode_str :: "string \<Rightarrow> string" where
  "encode_str s = CHR 0x22 # concat (map escape_char s) @ [CHR 0x22]"

text \<open>The string a dict key is written as; \<open>None\<close> when the key's type is not allowed.\<close>

fun key_str :: "pykey \<Rightarrow> string option" where
  "key_str (KStr s) = Some s"
| "key_str (KBool b) = Some (if b then ''true'' else ''false'')"
| "key_str KNone = Some ''null''"
| "key_str (KInt i) = Some (show_int i)"
| "key_str KObj = None"

text \<open>
  \<open>encode v\<close> is the text of \<open>v\<close>, or the exception the encoder raises at the first
  value or key it cannot write.
\<close>

definition not_serializable :: exn where
  "not_serializable =
     \<lparr>cls = TypeError, msg = ''Object of type object is not JSON serializable''\<rparr>"

definition circular_reference :: exn where
  "circular_reference = \<lparr>cls = ValueError, msg = ''Circular reference detected''\<rparr>"

definition bad_key :: exn where
  "bad_key =
     \<lparr>cls = TypeError, msg = ''keys must be str, int, float, bool or None, not object''\<rparr>"

fun encode :: "pyval \<Rightarrow> exn + string"
  and encode_items :: "pyval list \<Rightarrow> exn + string"
  and encode_members :: "(pykey \<times> pyval) list \<Rightarrow> exn + string" where
  "encode PNone = Inr ''null''"
| "encode (PBool b) = Inr (if b then ''true'' else ''false'')"
| "encode (PInt i) = Inr (show_int i)"
| "encode (PStr s) = Inr (encode_str s)"
| "encode (PList xs) =
     (case encode_items xs of Inl e \<Rightarrow> Inl e | Inr s \<Rightarrow> Inr (''['' @ s @ '']''))"
| "encode (PDict kvs) =
     (case encode_members kvs of Inl e \<Rightarrow> Inl e | Inr s \<Rightarrow> Inr (''{'' @ s @ ''}''))"
| "encode PObj = Inl not_serializable"
| "encode PCycle = Inl circular_reference"
| "encode_items [] = Inr []"
| "encode_items [x] = encode x"
| "encode_items (x # y # ys) =
     (case encode x of
        Inl e \<Rightarrow> Inl e
      | Inr a \<Rightarrow> (case encode_items (y # ys) of
                   Inl e \<Rightarrow> Inl e
                 | Inr b \<Rightarrow> Inr (a @ '', '' @ b)))"
| "encode_members [] = Inr []"
| "encode_members [(k, v)] =
     (case key_str k of
        None \<Rightarrow> Inl bad_key
      | Some ks \<Rightarrow> (case encode v of
                     Inl e \<Rightarrow> Inl e
                   | Inr a \<Rightarrow> Inr (encode_str ks @ '': '' @ a)))"
| "encode_members ((k, v) # kv # kvs) =
     (case key_str k of
        None \<Rightarrow> Inl bad_key
      | Some ks \<Rightarrow> (case encode v of
                     Inl e \<Rightarrow> Inl e
                   | Inr a \<Rightarrow> (case encode_members (kv # kvs) of
                                Inl e \<Rightarrow> Inl e
                              | Inr b \<Rightarrow> Inr (encode_str ks @ '': '' @ a @ '', '' @ b))))"

definition json_dumps :: "pyval \<Rightarrow> exn + string" where
  "json_dumps v = encode v"

subsection \<open>convert\_to\_line\_delimited\_json\<close>

text \<open>What \<open>for record in data\<close> runs over, or the \<open>TypeError\<close> of a value that is not iterable.\<close>

fun key_val :: "pykey \<Rightarrow> pyval" where
  "key_val (KStr s) = PStr s"
| "key_val (KInt i) = PInt i"
| "key_val (KBool b) = PBool b"
| "key_val KNone = PNone"
| "key_val KObj = PObj"

definition not_iterable :: "string \<Rightarrow> exn" where
  "not_iterable ty = \<lparr>cls = TypeError, msg = sq @ ty @ sq @ '' object is not iterable''\<rparr>"

fun py_iter :: "pyval \<Rightarrow> exn + pyval list" where
  "py_iter (PList xs) = Inr xs"
| "py_iter (PDict kvs) = Inr (map (\<lambda>kv. key_val (fst kv)) kvs)"
| "py_iter (PStr s) = Inr (map (\<lambda>c. PStr [c]) s)"
| "py_iter PNone = Inl (not_iterable ''NoneType'')"
| "py_iter (PBool b) = Inl (not_iterable ''bool'')"
| "py_iter (PInt i) = Inl (not_iterable ''int'')"
| "py_iter PObj = Inl (not_iterable ''object'')"
| "py_iter PCycle = Inr [PCycle]"

text \<open>The list comprehension: the records are serialised in order, up to the first failure.\<close>

fun dumps_each :: "pyval list \<Rightarrow> exn + string list" where
  "dumps_each [] = Inr []"
| "dumps_each (r # rs) =
     (case json_dumps r of
        Inl e \<Rightarrow> Inl e
      | Inr s \<Rightarrow> (case dumps_each rs of Inl e \<Rightarrow> Inl e | Inr ss \<Rightarrow> Inr (s # ss)))"

text \<open>\<open>sep.join(xs)\<close>.\<close>

fun join :: "string \<Rightarrow> string list \<Rightarrow> string" where
  "join sep [] = []"
| "join sep [x] = x"
| "join sep (x # y # ys) = x @ sep @ join sep (y # ys)"

definition newline :: char where
  "newline = CHR 0x0A"

definition convert_to_line_delimited_json :: "pyval \<Rightarrow> string io" where
  "convert_to_line_delimited_json data =
     bind_io (emit (Print ''Converting data to line-delimited JSON format...''))
       (\<lambda>_. try_except
               (bind_io (lift (py_iter data))
                  (\<lambda>records. bind_io (lift (dumps_each records))
                     (\<lambda>lines. ret (join [newline] lines))))
               (\<lambda>e. if isinstance e TypeError
                     then bind_io (emit (Print (''Error converting data to JSON: '' @ msg e)))
                            (\<lambda>_. ret [])
                     else raise e))"

subsection \<open>upload\_data\_to\_s3\<close>

definition file_key :: string where
  "file_key = ''raw-data/nba_player_data.jsonl''"

definition upload_data_to_s3 :: "config \<Rightarrow> pyval \<Rightarrow> exn option \<Rightarrow> unit io" where
  "upload_data_to_s3 cfg data answer =
     try_except
       (bind_io (convert_to_line_delimited_json data)
          (\<lambda>line_delimited_data.
             block
               [call (S3PutObject (bucket_name cfg) file_key line_delimited_data) answer,
                emit (Print (''Uploaded data to S3: '' @ file_key))]))
       (\<lambda>e. if isinstance e NoCredentialsError
             then emit (Print ''AWS credentials not found. Please configure your credentials.'')
             else if isinstance e Exception
             then emit (Print (''Error uploading data to S3: '' @ msg e))
             else raise e)"

subsection \<open>create\_glue\_table\<close>

definition nba_players :: "config \<Rightarrow> table_input" where
  "nba_players cfg =
     \<lparr>Name = ''nba_players'',
      Columns =
        [\<lparr>col_Name = ''PlayerID'', col_Type = ''int''\<rparr>,
         \<lparr>col_Name = ''FirstName'', col_Type = ''string''\<rparr>,
         \<lparr>col_Name = ''LastName'', col_Type = ''string''\<rparr>,
         \<lparr>col_Name = ''Team'', col_Type = ''string''\<rparr>,
         \<lparr>col_Name = ''Position'', col_Type = ''string''\<rparr>,
         \<lparr>col_Name = ''Points'', col_Type = ''int''\<rparr>],
      Location = ''s3://'' @ pystr (bucket_name cfg) @ ''/raw-data/'',
      InputFormat = ''org.apache.hadoop.mapred.TextInputFormat'',
      OutputFormat = ''org.apache.hadoop.hive.ql.io.HiveIgnoreKeyTextOutputFormat'',
      SerializationLibrary = ''org.openx.data.jsonserde.JsonSerDe'',
      TableType = ''EXTERNAL_TABLE''\<rparr>"

definition create_glue_table :: "config \<Rightarrow> exn option \<Rightarrow> unit io" where
  "create_glue_table cfg answer =
     try_except
       (block
          [call (GlueCreateTable (glue_database_name cfg) (nba_players cfg)) answer,
           emit (Print (''Glue table '' @ sq @ ''nba_players'' @ sq @ '' created successfully.''))])
       (\<lambda>e. if isinstance e AlreadyExistsException
             then emit (Print (''Glue table '' @ sq @ ''nba_players'' @ sq @ '' already exists.''))
             else if isinstance e Exception
             then emit (Print (''Error creating Glue table: '' @ msg e))
             else raise e)"

subsection \<open>configure\_athena\<close>

definition configure_athena :: "config \<Rightarrow> exn option \<Rightarrow> unit io" where
  "configure_athena cfg answer =
     try_except
       (block
          [call (AthenaStartQueryExecution ''CREATE DATABASE IF NOT EXISTS nba_analytics''
                   (glue_database_name cfg) (athena_output_location cfg)) answer,
           emit (Print ''Athena output location configured successfully.'')])
       (\<lambda>e. if isinstance e Exception
             then emit (Print (''Error configuring Athena: '' @ msg e))
             else raise e)"

subsection \<open>main\<close>

text \<open>What each of the six library calls of a run answers.\<close>

record world =
  create_bucket_answer :: "exn option"
  create_database_answer :: "exn option"
  get_answer :: "exn + response"
  put_object_answer :: "exn option"
  create_table_answer :: "exn option"
  start_query_execution_answer :: "exn option"

definition main :: "config \<Rightarrow> world \<Rightarrow> unit io" where
  "main cfg w =
     block
       [emit (Print ''Starting the data lake setup process...''),
        create_s3_bucket cfg (create_bucket_answer w),
        emit (Sleep 5),
        create_glue_database cfg (create_database_answer w),
        bind_io (fetch_nba_data cfg (get_answer w))
          (\<lambda>nba_data.
             block
               [if truthy nba_data
                then block
                       [upload_data_to_s3 cfg nba_data (put_object_answer w),
                        create_glue_table cfg (create_table_answer w),
                        configure_athena cfg (start_query_execution_answer w)]
                else ret (),
                emit (Print ''Data lake setup complete.'')])]"

subsection \<open>Observing a run\<close>

text \<open>The library calls among the events, by the service operation they invoke.\<close>

datatype api = CreateBucket | CreateDatabase | Get | PutObject | CreateTable | StartQueryExecution

fun api_of :: "event \<Rightarrow> api option" where
  "api_of (Print s) = None"
| "api_of (Sleep n) = None"
| "api_of (S3CreateBucket b c) = Some CreateBucket"
| "api_of (GlueCreateDatabase n d) = Some CreateDatabase"
| "api_of (RequestsGet u h) = Some Get"
| "api_of (S3PutObject b k body) = Some PutObject"
| "api_of (GlueCreateTable d t) = Some CreateTable"
| "api_of (AthenaStartQueryExecution q d l) = Some StartQueryExecution"

definition calls :: "event list \<Rightarrow> api list" where
  "calls t = List.map_filter api_of t"

text \<open>The \<open>create_bucket\<close> calls among the events of a run.\<close>

fun is_create_bucket :: "event \<Rightarrow> bool" where
  "is_create_bucket (S3CreateBucket b c) = True"
| "is_create_bucket _ = False"

subsection \<open>Storage locations and example runs\<close>

definition s3_uri :: "string \<Rightarrow> string \<Rightarrow> string" where
  "s3_uri bucket key = ''s3://'' @ bucket @ ''/'' @ key"

fun object_uri :: "event \<Rightarrow> string option" where
  "object_uri (S3PutObject (Some b) k body) = Some (s3_uri b k)"
| "object_uri _ = None"

fun table_location :: "event \<Rightarrow> string option" where
  "table_location (GlueCreateTable d t) = Some (Location t)"
| "table_location _ = None"

fun query_string :: "event \<Rightarrow> string option" where
  "query_string (AthenaStartQueryExecution q d l) = Some q"
| "query_string _ = None"

fun query_context :: "event \<Rightarrow> (string option \<times> string) option" where
  "query_context (AthenaStartQueryExecution q d l) = Some (d, l)"
| "query_context _ = None"

definition example_config :: config where
  "example_config =
     \<lparr>region = Some ''eu-west-1'', bucket_name = Some ''sports-analytics-data-lake'',
      glue_database_name = Some ''glue_nba_data_lake'', api_key = Some ''k'',
      nba_endpoint = Some ''https://api.sportsdata.io/v3/nba/scores/json/Players''\<rparr>"

definition connection_refused :: exn where
  "connection_refused = \<lparr>cls = ConnectionError, msg = ''Connection refused''\<rparr>"

definition offline_world :: world where
  "offline_world =
     \<lparr>create_bucket_answer = None, create_database_answer = None,
      get_answer = Inl connection_refused, put_object_answer = None,
      create_table_answer = None, start_query_execution_answer = None\<rparr>"

definition bucket_already_owned :: exn where
  "bucket_already_owned =
     \<lparr>cls = BucketAlreadyOwnedByYou,
      msg = ''An error occurred (BucketAlreadyOwnedByYou) when calling the CreateBucket operation''\<rparr>"

definition already_exists :: exn where
  "already_exists =
     \<lparr>cls = AlreadyExistsException,
      msg = ''An error occurred (AlreadyExistsException): already exists''\<rparr>"

subsection \<open>Reading line-delimited JSON back\<close>

text \<open>
  The script never reads what it wrote.  To state that a line parses back to its record,
  this is the decoder of the standard library (\<open>json.loads\<close>) on texts without
  floating-point numbers: white space between tokens, the literals, integers without
  leading zeros, strings with their escapes, arrays and objects.  A text it does not
  accept, or one with a number that has a fraction or an exponent or a \<open>\u\<close> escape
  above 255, gives \<open>None\<close>.
\<close>

definition is_digit :: "char \<Rightarrow> bool" where
  "is_digit c = (48 \<le> (of_char c :: nat) \<and> (of_char c :: nat) \<le> 57)"

definition digit_val :: "char \<Rightarrow> nat" where
  "digit_val c = of_char c - 48"

definition nat_of_digits :: "string \<Rightarrow> nat" where
  "nat_of_digits ds = foldl (\<lambda>a c. 10 * a + digit_val c) 0 ds"

definition is_ws :: "char \<Rightarrow> bool" where
  "is_ws c = (c = CHR 0x20 \<or> c = CHR 0x09 \<or> c = CHR 0x0A \<or> c = CHR 0x0D)"

definition skip_ws :: "string \<Rightarrow> string" where
  "skip_ws s = dropWhile is_ws s"

definition hex_val :: "char \<Rightarrow> nat option" where
  "hex_val c =
     (let n = (of_char c :: nat) in
      if 48 \<le> n \<and> n \<le> 57 then Some (n - 48)
      else if 97 \<le> n \<and> n \<le> 102 then Some (n - 87)
      else if 65 \<le> n \<and> n \<le> 70 then Some (n - 55)
      else None)"

definition unescape :: "char \<Rightarrow> char option" where
  "unescape e =
     (if e = CHR 0x22 then Some (CHR 0x22)
      else if e = CHR 0x5C then Some (CHR 0x5C)
      else if e = CHR ''/'' then Some (CHR ''/'')
      else if e = CHR ''b'' then Some (CHR 0x08)
      else if e = CHR ''f'' then Some (CHR 0x0C)
      else if e = CHR ''n'' then Some (CHR 0x0A)
      else if e = CHR ''r'' then Some (CHR 0x0D)
      else if e = CHR ''t'' then Some (CHR 0x09)
      else None)"

definition cons_char :: "char \<Rightarrow> (string \<times> string) option \<Rightarrow> (string \<times> string) option" where
  "cons_char c p = (case p of None \<Rightarrow> None | Some (x, r) \<Rightarrow> Some (c # x, r))"

text \<open>The characters of a string after its opening quote, and the text after the closing one.\<close>

fun parse_chars :: "string \<Rightarrow> (string \<times> string) option" where
  "parse_chars [] = None"
| "parse_chars (c # r) =
     (if c = CHR 0x22 then Some ([], r)
      else if c = CHR 0x5C then
        (case r of
           [] \<Rightarrow> None
         | e # r1 \<Rightarrow>
             if e = CHR ''u'' then
               (case r1 of
                  h1 # h2 # h3 # h4 # r2 \<Rightarrow>
                    (case (hex_val h1, hex_val h2, hex_val h3, hex_val h4) of
                       (Some a, Some b, Some c', Some d) \<Rightarrow>
                         if ((a * 16 + b) * 16 + c') * 16 + d < 256
                         then cons_char (char_of (((a * 16 + b) * 16 + c') * 16 + d)) (parse_chars r2)
                         else None
                     | _ \<Rightarrow> None)
                | _ \<Rightarrow> None)
             else (case unescape e of
                     None \<Rightarrow> None
                   | Some x \<Rightarrow> cons_char x (parse_chars r1)))
      else if (of_char c :: nat) < 32 then None
      else cons_char c (parse_chars r))"

text \<open>
  An integer: an optional sign and digits.  After a leading zero the number ends, as in
  the decoder's pattern \<open>-?(0|[1-9][0-9]*)\<close>.
\<close>

definition parse_number :: "string \<Rightarrow> (pyval \<times> string) option" where
  "parse_number s =
     (let neg = (s \<noteq> [] \<and> hd s = CHR ''-'');
          s1 = (if neg then tl s else s);
          ds = takeWhile is_digit s1;
          rest = dropWhile is_digit s1
      in if ds = [] then None
         else if hd ds = CHR ''0'' \<and> tl ds \<noteq> [] then Some (PInt 0, tl ds @ rest)
         else if rest \<noteq> [] \<and> (hd rest = CHR ''.'' \<or> hd rest = CHR ''e'' \<or> hd rest = CHR ''E'')
         then None
         else Some (PInt (if neg then - int (nat_of_digits ds) else int (nat_of_digits ds)), rest))"

text \<open>\<open>d[k] = v\<close>: a key already present keeps its place and takes the new value.\<close>

fun dict_store :: "pykey \<Rightarrow> pyval \<Rightarrow> (pykey \<times> pyval) list \<Rightarrow> (pykey \<times> pyval) list" where
  "dict_store k v [] = [(k, v)]"
| "dict_store k v (kv # d) =
     (if fst kv = k then (k, v) # d else kv # dict_store k v d)"

definition dict_of_pairs :: "(pykey \<times> pyval) list \<Rightarrow> (pykey \<times> pyval) list" where
  "dict_of_pairs ps = foldl (\<lambda>d kv. dict_store (fst kv) (snd kv) d) [] ps"

text \<open>
  The recursive descent, with a bound on the nesting that each call lowers by one;
  \<open>json_loads\<close> starts it with more than the length of the text, which no nesting
  exceeds.
\<close>

fun parse_value :: "nat \<Rightarrow> string \<Rightarrow> (pyval \<times> string) option"
  and parse_elements :: "nat \<Rightarrow> string \<Rightarrow> (pyval list \<times> string) option"
  and parse_members :: "nat \<Rightarrow> string \<Rightarrow> ((pykey \<times> pyval) list \<times> string) option" where
  "parse_value 0 s = None"
| "parse_value (Suc n) s =
     (case s of
        [] \<Rightarrow> None
      | c # r \<Rightarrow>
          if c = CHR 0x22 then
            (case parse_chars r of None \<Rightarrow> None | Some (x, r') \<Rightarrow> Some (PStr x, r'))
          else if c = CHR ''['' then
            (case skip_ws r of
               [] \<Rightarrow> None
             | d # r' \<Rightarrow>
                 if d = CHR '']'' then Some (PList [], r')
                 else (case parse_elements n (d # r') of
                         None \<Rightarrow> None
                       | Some (xs, r'') \<Rightarrow> Some (PList xs, r'')))
          else if c = CHR ''{'' then
            (case skip_ws r of
               [] \<Rightarrow> None
             | d # r' \<Rightarrow>
                 if d = CHR ''}'' then Some (PDict [], r')
                 else (case parse_members n (d # r') of
                         None \<Rightarrow> None
                       | Some (kvs, r'') \<Rightarrow> Some (PDict (dict_of_pairs kvs), r'')))
          else if take 4 s = ''null'' then Some (PNone, drop 4 s)
          else if take 4 s = ''true'' then Some (PBool True, drop 4 s)
          else if take 5 s = ''false'' then Some (PBool False, drop 5 s)
          else parse_number s)"
| "parse_elements 0 s = None"
| "parse_elements (Suc n) s =
     (case parse_value n s of
        None \<Rightarrow> None
      | Some (v, r) \<Rightarrow>
          (case skip_ws r of
             [] \<Rightarrow> None
           | c # r' \<Rightarrow>
               if c = CHR '']'' then Some ([v], r')
               else if c = CHR '','' then
                 (case parse_elements n (skip_ws r') of
                    None \<Rightarrow> None
                  | Some (vs, r'') \<Rightarrow> Some (v # vs, r''))
               else None))"
| "parse_members 0 s = None"
| "parse_members (Suc n) s =
     (case s of
        [] \<Rightarrow> None
      | q # r \<Rightarrow>
          if q \<noteq> CHR 0x22 then None
          else
            (case parse_chars r of
               None \<Rightarrow> None
             | Some (k, r1) \<Rightarrow>
                 (case skip_ws r1 of
                    [] \<Rightarrow> None
                  | c # r2 \<Rightarrow>
                      if c \<noteq> CHR '':'' then None
                      else
                        (case parse_value n (skip_ws r2) of
                           None \<Rightarrow> None
                         | Some (v, r3) \<Rightarrow>
                             (case skip_ws r3 of
                                [] \<Rightarrow> None
                              | c' # r4 \<Rightarrow>
                                  if c' = CHR ''}'' then Some ([(KStr k, v)], r4)
                                  else if c' = CHR '','' then
                                    (case parse_members n (skip_ws r4) of
                                       None \<Rightarrow> None
                                     | Some (kvs, r5) \<Rightarrow> Some ((KStr k, v) # kvs, r5))
                                  else None)))))"

definition json_loads :: "string \<Rightarrow> pyval option" where
  "json_loads s =
     (case parse_value (Suc (length s)) (skip_ws s) of
        None \<Rightarrow> None
      | Some (v, r) \<Rightarrow> if skip_ws r = [] then Some v else None)"

text \<open>
  A well-formed record: built from \<open>None\<close>, booleans, integers, strings, lists and dicts
  whose keys are strings, no key twice in a dict.  (A dict with a key that is not a
  string is serialised, but reads back with that key as a string.)
\<close>

fun is_str_key :: "pykey \<Rightarrow> bool" where
  "is_str_key (KStr s) = True"
| "is_str_key _ = False"

fun wf_json :: "pyval \<Rightarrow> bool"
  and wf_items :: "pyval list \<Rightarrow> bool"
  and wf_members :: "(pykey \<times> pyval) list \<Rightarrow> bool" where
  "wf_json PNone = True"
| "wf_json (PBool b) = True"
| "wf_json (PInt i) = True"
| "wf_json (PStr s) = True"
| "wf_json (PList xs) = wf_items xs"
| "wf_json (PDict kvs) = (wf_members kvs \<and> distinct (map fst kvs))"
| "wf_json PObj = False"
| "wf_json PCycle = False"
| "wf_items [] = True"
| "wf_items (x # xs) = (wf_json x \<and> wf_items xs)"
| "wf_members [] = True"
| "wf_members ((k, v) # kvs) = (is_str_key k \<and> wf_json v \<and> wf_members kvs)"

text \<open>
  The lines of a text as \<open>str.splitlines\<close> gives them for the separator \<open>\n\<close>: the
  empty text has no line, and a line break at the very end starts no further line.
\<close>

fun lines_from :: "string \<Rightarrow> string \<Rightarrow> string list" where
  "lines_from cur [] = (if cur = [] then [] else [rev cur])"
| "lines_from cur (c # s) =
     (if c = newline then rev cur # lines_from [] s else lines_from (c # cur) s)"

definition splitlines :: "string \<Rightarrow> string list" where
  "splitlines s = lines_from [] s"

text \<open>What may follow a value in a text, and what a value may start with.\<close>

definition follows_value :: "string \<Rightarrow> bool" where
  "follows_value rest =
     (case rest of [] \<Rightarrow> True | c # _ \<Rightarrow> c = CHR '','' \<or> c = CHR '']'' \<or> c = CHR ''}'')"

definition starts_value :: "string \<Rightarrow> bool" where
  "starts_value s =
     (case s of [] \<Rightarrow> False | c # _ \<Rightarrow> \<not> is_ws c \<and> c \<noteq> CHR '']'' \<and> c \<noteq> CHR ''}'')"

text \<open>The \<open>put_object\<close> calls among the events, and example batches of records.\<close>

fun is_put_object :: "event \<Rightarrow> bool" where
  "is_put_object (S3PutObject b k body) = True"
| "is_put_object _ = False"

definition player :: "int \<Rightarrow> string \<Rightarrow> string \<Rightarrow> int \<Rightarrow> pyval" where
  "player pid first_name last_name points =
     PDict [(KStr ''PlayerID'', PInt pid), (KStr ''FirstName'', PStr first_name),
            (KStr ''LastName'', PStr last_name), (KStr ''Team'', PStr ''X''),
            (KStr ''Position'', PStr ''G''), (KStr ''Points'', PInt points)]"

definition two_players :: "pyval list" where
  "two_players = [player 1 ''A'' ''B'' 10, player 2 ''C'' ''D'' 20]"

definition tainted_batch :: "pyval list" where
  "tainted_batch = [player 1 ''A'' ''B'' 10, PDict [(KStr ''PlayerID'', PObj)]]"

definition circular_batch :: "pyval list" where
  "circular_batch = [player 1 ''A'' ''B'' 10, PCycle]"

section \<open>Properties\<close>

subsection \<open>Helper facts\<close>

lemma isinstance_Exception [simp]: "isinstance e Exception"
  by (cases "cls e") (simp_all add: isinstance_def)

lemmas io_defs =
  try_except_def bind_io_def call_def call_val_def lift_def emit_def ret_def raise_def
  events_def outcome_def

lemma events_pair [simp]: "events (t, r) = t"
  by (simp add: events_def)

lemma outcome_pair [simp]: "outcome (t, r) = r"
  by (simp add: outcome_def)

lemma bind_io_eq:
  "bind_io m f =
     (case outcome m of
        Inl e \<Rightarrow> (events m, Inl e)
      | Inr x \<Rightarrow> (events m @ events (f x), outcome (f x)))"
  by (cases m) (simp add: bind_io_def events_def outcome_def split: prod.splits sum.splits)

lemma map_filter_app:
  "List.map_filter f (a @ b) = List.map_filter f a @ List.map_filter f b"
  by (induction a) (simp_all add: List.map_filter_simps split: option.splits)

lemma calls_append [simp]: "calls (a @ b) = calls a @ calls b"
  by (simp add: calls_def map_filter_app)

lemma calls_Nil [simp]: "calls [] = []"
  by (simp add: calls_def List.map_filter_simps)

lemma calls_Cons [simp]:
  "calls (ev # t) = (case api_of ev of None \<Rightarrow> calls t | Some a \<Rightarrow> a # calls t)"
  by (simp add: calls_def List.map_filter_simps split: option.splits)

text \<open>The four provisioning steps issue one call and return, whatever the provider answers.\<close>

lemma outcome_simple:
  "outcome (create_s3_bucket cfg a) = Inr ()"
  "outcome (create_glue_database cfg a) = Inr ()"
  "outcome (create_glue_table cfg a) = Inr ()"
  "outcome (configure_athena cfg a) = Inr ()"
  by (cases a; simp add: create_s3_bucket_def create_glue_database_def create_glue_table_def
        configure_athena_def io_defs)+

lemma calls_simple:
  "calls (events (create_s3_bucket cfg a)) = [CreateBucket]"
  "calls (events (create_glue_database cfg a)) = [CreateDatabase]"
  "calls (events (create_glue_table cfg a)) = [CreateTable]"
  "calls (events (configure_athena cfg a)) = [StartQueryExecution]"
  by (cases a; simp add: create_s3_bucket_def create_glue_database_def create_glue_table_def
        configure_athena_def io_defs)+

lemma fetch_outcome: "\<exists>j. outcome (fetch_nba_data cfg g) = Inr (of_json j)"
proof (cases g)
  case (Inl e)
  have "outcome (fetch_nba_data cfg g) = Inr (of_json (JList []))"
    using Inl by (simp add: fetch_nba_data_def io_defs)
  then show ?thesis by blast
next
  case (Inr r)
  show ?thesis
  proof (cases "raise_for_status_answer r")
    case None
    show ?thesis
    proof (cases "json_answer r")
      case (Inl e)
      have "outcome (fetch_nba_data cfg g) = Inr (of_json (JList []))"
        using Inr None Inl by (simp add: fetch_nba_data_def io_defs)
      then show ?thesis by blast
    next
      case (Inr v)
      have "outcome (fetch_nba_data cfg g) = Inr (of_json v)"
        using \<open>g = Inr r\<close> None Inr by (simp add: fetch_nba_data_def io_defs)
      then show ?thesis by blast
    qed
  next
    case (Some e)
    have "outcome (fetch_nba_data cfg g) = Inr (of_json (JList []))"
      using Inr Some by (simp add: fetch_nba_data_def io_defs)
    then show ?thesis by blast
  qed
qed

lemma fetch_calls: "calls (events (fetch_nba_data cfg g)) = [Get]"
  by (cases g) (simp_all add: fetch_nba_data_def io_defs split: option.splits sum.splits)

text \<open>
  Iteration fails with a \<open>TypeError\<close> only, and a decoded JSON value is always
  serialised, so the transcoder returns on whatever the fetch step hands over.
\<close>

lemma py_iter_TypeError: "py_iter d = Inl e \<Longrightarrow> cls e = TypeError"
  by (cases d) (auto simp: not_iterable_def)

lemma encode_of_json:
  "\<exists>s. encode (of_json j) = Inr s"
  "\<exists>s. encode_items (of_json_list xs) = Inr s"
  "\<exists>s. encode_members (of_json_items kvs) = Inr s"
proof (induction j and xs and kvs rule: of_json_of_json_list_of_json_items.induct)
  case (8 x xs)
  then show ?case by (cases xs) auto
next
  case (10 k v kvs)
  then show ?case by (cases kvs) auto
qed auto

lemma set_of_json_list: "r \<in> set (of_json_list xs) \<Longrightarrow> \<exists>x. r = of_json x"
  by (induction xs) auto

lemma set_of_json_keys:
  "r \<in> set (map (\<lambda>kv. key_val (fst kv)) (of_json_items kvs)) \<Longrightarrow> \<exists>k. r = PStr k"
proof (induction kvs)
  case Nil
  then show ?case by simp
next
  case (Cons kv kvs)
  then show ?case by (cases kv) auto
qed

lemma py_iter_of_json:
  assumes "py_iter (of_json j) = Inr rs" and "r \<in> set rs"
  shows "\<exists>s. json_dumps r = Inr s"
proof (cases j)
  case (JStr str)
  with assms show ?thesis by (auto simp: json_dumps_def)
next
  case (JList xs)
  with assms obtain x where "r = of_json x"
    using set_of_json_list by auto
  then show ?thesis
    using encode_of_json(1) [of x] by (simp add: json_dumps_def)
next
  case (JDict kvs)
  with assms have "r \<in> set (map (\<lambda>kv. key_val (fst kv)) (of_json_items kvs))"
    by auto
  then obtain k where "r = PStr k"
    using set_of_json_keys by blast
  then show ?thesis by (simp add: json_dumps_def)
qed (use assms in auto)

lemma dumps_each_succeeds:
  "(\<And>r. r \<in> set rs \<Longrightarrow> \<exists>s. json_dumps r = Inr s) \<Longrightarrow> \<exists>ls. dumps_each rs = Inr ls"
proof (induction rs)
  case Nil
  then show ?case by simp
next
  case (Cons r rs)
  then obtain ls where "dumps_each rs = Inr ls" by auto
  moreover obtain s where "json_dumps r = Inr s"
    using Cons.prems by auto
  ultimately show ?case by simp
qed

lemma convert_of_json: "\<exists>s. outcome (convert_to_line_delimited_json (of_json j)) = Inr s"
proof (cases "py_iter (of_json j)")
  case (Inl e)
  then show ?thesis
    using py_iter_TypeError [OF Inl]
    by (simp add: convert_to_line_delimited_json_def io_defs isinstance_def)
next
  case (Inr rs)
  obtain ls where "dumps_each rs = Inr ls"
    using dumps_each_succeeds [of rs] py_iter_of_json [OF Inr] by blast
  with Inr show ?thesis
    by (simp add: convert_to_line_delimited_json_def io_defs)
qed

lemma convert_calls: "calls (events (convert_to_line_delimited_json d)) = []"
  by (simp add: convert_to_line_delimited_json_def io_defs split: sum.splits prod.splits)

text \<open>The upload step returns whether the transcoder raised, the write failed, or neither.\<close>

lemma upload_outcome: "outcome (upload_data_to_s3 cfg d a) = Inr ()"
proof -
  obtain t r where c: "convert_to_line_delimited_json d = (t, r)"
    by (cases "convert_to_line_delimited_json d")
  show ?thesis
    by (cases r; cases a) (simp_all add: upload_data_to_s3_def c io_defs)
qed

lemma upload_calls: "calls (events (upload_data_to_s3 cfg (of_json j) a)) = [PutObject]"
proof -
  obtain s where s: "outcome (convert_to_line_delimited_json (of_json j)) = Inr s"
    using convert_of_json by blast
  then obtain t where "convert_to_line_delimited_json (of_json j) = (t, Inr s)"
    by (cases "convert_to_line_delimited_json (of_json j)") (simp add: outcome_def)
  then show ?thesis
    using convert_calls [of "of_json j"]
    by (cases a)
       (simp_all add: upload_data_to_s3_def try_except_def bind_io_def call_def emit_def
          ret_def raise_def)
qed

text \<open>The events of a whole run, given what the fetch step returned.\<close>

lemma main_unfold:
  assumes "outcome (fetch_nba_data cfg (get_answer w)) = Inr d"
  shows "main cfg w =
    (Print ''Starting the data lake setup process...'' #
     events (create_s3_bucket cfg (create_bucket_answer w)) @ Sleep 5 #
     events (create_glue_database cfg (create_database_answer w)) @
     events (fetch_nba_data cfg (get_answer w)) @
     (if truthy d then
        events (upload_data_to_s3 cfg d (put_object_answer w)) @
        events (create_glue_table cfg (create_table_answer w)) @
        events (configure_athena cfg (start_query_execution_answer w))
      else []) @ [Print ''Data lake setup complete.''], Inr ())"
  unfolding main_def
  by (simp add: bind_io_eq outcome_simple upload_outcome assms emit_def ret_def)

text \<open>Each of the four request failures prints the line of its own handler.\<close>

lemma fetch_diagnostics:
  "cls e = HTTPError \<Longrightarrow>
     events (fetch_nba_data cfg (Inl e)) =
       [RequestsGet (nba_endpoint cfg) [(''Ocp-Apim-Subscription-Key'', api_key cfg)],
        Print (''HTTP error occurred: '' @ msg e)]"
  "cls e = ConnectionError \<Longrightarrow>
     events (fetch_nba_data cfg (Inl e)) =
       [RequestsGet (nba_endpoint cfg) [(''Ocp-Apim-Subscription-Key'', api_key cfg)],
        Print ''Network connection error. Please check your internet connection.'']"
  "cls e = Timeout \<Longrightarrow>
     events (fetch_nba_data cfg (Inl e)) =
       [RequestsGet (nba_endpoint cfg) [(''Ocp-Apim-Subscription-Key'', api_key cfg)],
        Print ''Request timed out. Please try again.'']"
  "cls e = RequestException \<Longrightarrow>
     events (fetch_nba_data cfg (Inl e)) =
       [RequestsGet (nba_endpoint cfg) [(''Ocp-Apim-Subscription-Key'', api_key cfg)],
        Print (''An error occurred: '' @ msg e)]"
  by (simp_all add: fetch_nba_data_def io_defs isinstance_def)

subsection \<open>The orchestrator\<close>

text \<open>
  C1.  Whatever each of the six library calls answers, every step function returns
  without raising, \<open>main\<close> returns without raising, and the last thing a run does is print
  the completion line.  The bucket, database and fetch calls are issued in every run;
  the upload, table and query calls are issued after them in every run whose fetched
  data is true, whatever the earlier calls answered.
\<close>

theorem main_always_completes:
  "\<exists>d. outcome (fetch_nba_data cfg (get_answer w)) = Inr d \<and>
       outcome (create_s3_bucket cfg a1) = Inr () \<and>
       outcome (create_glue_database cfg a2) = Inr () \<and>
       outcome (upload_data_to_s3 cfg data a4) = Inr () \<and>
       outcome (create_glue_table cfg a5) = Inr () \<and>
       outcome (configure_athena cfg a6) = Inr () \<and>
       outcome (main cfg w) = Inr () \<and>
       last (events (main cfg w)) = Print ''Data lake setup complete.'' \<and>
       calls (events (main cfg w)) =
         [CreateBucket, CreateDatabase, Get] @
         (if truthy d then [PutObject, CreateTable, StartQueryExecution] else [])"
proof -
  obtain j where d: "outcome (fetch_nba_data cfg (get_answer w)) = Inr (of_json j)"
    using fetch_outcome by blast
  show ?thesis
    by (rule exI [of _ "of_json j"])
       (simp add: d main_unfold [OF d] outcome_simple upload_outcome calls_simple fetch_calls
          upload_calls)
qed

text \<open>
  C2.  In a run whose fetch step returns the empty list, the only library calls are the
  bucket creation, the database creation and the HTTP request: no object is put, no
  table is created, no query is started, and \<open>main\<close> returns.
\<close>

theorem empty_fetch_short_circuits:
  assumes "outcome (fetch_nba_data cfg (get_answer w)) = Inr (PList [])"
  shows "calls (events (main cfg w)) = [CreateBucket, CreateDatabase, Get] \<and>
         outcome (main cfg w) = Inr ()"
  by (simp add: main_unfold [OF assms] calls_simple fetch_calls)

theorem empty_fetch_short_circuits_witness:
  "outcome (fetch_nba_data example_config (get_answer offline_world)) = Inr (PList []) \<and>
   calls (events (main example_config offline_world)) = [CreateBucket, CreateDatabase, Get] \<and>
   outcome (main example_config offline_world) = Inr ()"
proof -
  have h: "outcome (fetch_nba_data example_config (get_answer offline_world)) = Inr (PList [])"
    by (simp add: fetch_nba_data_def offline_world_def connection_refused_def io_defs
        isinstance_def)
  show ?thesis
    using h empty_fetch_short_circuits [OF h] by simp
qed

subsection \<open>The external data source\<close>

text \<open>
  C3.  When \<open>requests.get\<close> or \<open>raise_for_status\<close> raises an exception \<open>e\<close> of any
  class, in particular an HTTP error, a connection error, a timeout or a plain request
  exception, \<open>fetch_nba_data\<close> returns the empty list, and the run then makes the same
  library calls as a run that fetched no record.
\<close>

theorem fetch_degrades_to_empty:
  "outcome (fetch_nba_data cfg (Inl e)) = Inr (PList []) \<and>
   outcome (fetch_nba_data cfg
              (Inr \<lparr>raise_for_status_answer = Some e, json_answer = j\<rparr>)) = Inr (PList []) \<and>
   outcome (fetch_nba_data cfg
              (Inr \<lparr>raise_for_status_answer = None, json_answer = Inl e\<rparr>)) = Inr (PList []) \<and>
   calls (events (main cfg (w\<lparr>get_answer := Inl e\<rparr>))) = [CreateBucket, CreateDatabase, Get] \<and>
   calls (events (main cfg
            (w\<lparr>get_answer := Inr \<lparr>raise_for_status_answer = Some e, json_answer = j\<rparr>\<rparr>))) =
     [CreateBucket, CreateDatabase, Get]"
proof -
  have 1: "outcome (fetch_nba_data cfg (Inl e)) = Inr (PList [])"
    by (simp add: fetch_nba_data_def io_defs)
  have 2: "outcome (fetch_nba_data cfg
              (Inr \<lparr>raise_for_status_answer = Some e, json_answer = j\<rparr>)) = Inr (PList [])"
    by (simp add: fetch_nba_data_def io_defs)
  have 3: "outcome (fetch_nba_data cfg
              (Inr \<lparr>raise_for_status_answer = None, json_answer = Inl e\<rparr>)) = Inr (PList [])"
    by (simp add: fetch_nba_data_def io_defs)
  have 4: "calls (events (main cfg (w\<lparr>get_answer := Inl e\<rparr>))) =
             [CreateBucket, CreateDatabase, Get]"
    using main_unfold [of cfg "w\<lparr>get_answer := Inl e\<rparr>" "PList []"] 1
    by (simp add: calls_simple fetch_calls)
  have 5: "calls (events (main cfg
            (w\<lparr>get_answer := Inr \<lparr>raise_for_status_answer = Some e, json_answer = j\<rparr>\<rparr>))) =
     [CreateBucket, CreateDatabase, Get]"
    using main_unfold [of cfg
        "w\<lparr>get_answer := Inr \<lparr>raise_for_status_answer = Some e, json_answer = j\<rparr>\<rparr>"
        "PList []"] 2
    by (simp add: calls_simple fetch_calls)
  from 1 2 3 4 5 show ?thesis by blast
qed

subsection \<open>The provisioners\<close>

text \<open>
  C4.  When the provider answers the bucket creation with \<open>BucketAlreadyOwnedByYou\<close>, or
  the database or table creation with \<open>AlreadyExistsException\<close>, as it does for a second
  creation under the same name, the function returns without raising and reports that
  the resource already exists; the first creation reports that it was created.
\<close>

theorem already_exists_is_success:
  assumes "cls e = BucketAlreadyOwnedByYou" and "cls e' = AlreadyExistsException"
  shows "outcome (create_s3_bucket cfg None) = Inr () \<and>
         last (events (create_s3_bucket cfg None)) =
           Print (''S3 bucket '' @ sq @ pystr (bucket_name cfg) @ sq @ '' created successfully.'') \<and>
         outcome (create_s3_bucket cfg (Some e)) = Inr () \<and>
         last (events (create_s3_bucket cfg (Some e))) =
           Print (''S3 bucket '' @ sq @ pystr (bucket_name cfg) @ sq
                  @ '' already exists and is owned by you.'') \<and>
         outcome (create_glue_database cfg (Some e')) = Inr () \<and>
         last (events (create_glue_database cfg (Some e'))) =
           Print (''Glue database '' @ sq @ pystr (glue_database_name cfg) @ sq
                  @ '' already exists.'') \<and>
         outcome (create_glue_table cfg (Some e')) = Inr () \<and>
         last (events (create_glue_table cfg (Some e'))) =
           Print (''Glue table '' @ sq @ ''nba_players'' @ sq @ '' already exists.'')"
  using assms
  by (simp add: create_s3_bucket_def create_glue_database_def create_glue_table_def io_defs
      isinstance_def)

theorem already_exists_is_success_witness:
  "cls bucket_already_owned = BucketAlreadyOwnedByYou \<and>
   cls already_exists = AlreadyExistsException \<and>
   create_s3_bucket example_config (Some bucket_already_owned) =
     ([S3CreateBucket (Some ''sports-analytics-data-lake'') (Some (Some ''eu-west-1'')),
       Print (''S3 bucket '' @ sq @ ''sports-analytics-data-lake'' @ sq
              @ '' already exists and is owned by you.'')], Inr ()) \<and>
   outcome (create_glue_database example_config (Some already_exists)) = Inr () \<and>
   outcome (create_glue_table example_config (Some already_exists)) = Inr ()"
proof -
  have a: "cls bucket_already_owned = BucketAlreadyOwnedByYou"
    by (simp add: bucket_already_owned_def)
  have b: "cls already_exists = AlreadyExistsException"
    by (simp add: already_exists_def)
  have c: "create_s3_bucket example_config (Some bucket_already_owned) =
     ([S3CreateBucket (Some ''sports-analytics-data-lake'') (Some (Some ''eu-west-1'')),
       Print (''S3 bucket '' @ sq @ ''sports-analytics-data-lake'' @ sq
              @ '' already exists and is owned by you.'')], Inr ())"
    by (simp add: create_s3_bucket_def example_config_def bucket_already_owned_def io_defs
        isinstance_def pystr_def)
  show ?thesis
    using a b c already_exists_is_success [OF a b, of example_config] by simp
qed

text \<open>
  C6.  When the configured region is us-east-1, \<open>create_s3_bucket\<close> issues exactly one
  \<open>create_bucket\<close> call and that call carries no \<open>CreateBucketConfiguration\<close>; for every
  other region string \<open>r\<close> it issues exactly one call, whose location constraint is \<open>r\<close>
  itself.  This holds whatever the provider answers.  (With no region configured the
  constraint passed is \<open>None\<close>.)
\<close>

theorem create_s3_bucket_region_branch:
  "filter is_create_bucket (events (create_s3_bucket cfg answer)) =
     (case region cfg of
        None \<Rightarrow> [S3CreateBucket (bucket_name cfg) (Some None)]
      | Some r \<Rightarrow>
          if r = ''us-east-1'' then [S3CreateBucket (bucket_name cfg) None]
          else [S3CreateBucket (bucket_name cfg) (Some (Some r))])"
  by (cases answer)
     (simp_all add: create_s3_bucket_def io_defs split: option.splits)

text \<open>
  C7, at the failing input.  A \<open>PartialCredentialsError\<close> raised by the bucket creation is
  not handled by the missing-credentials clause: the function prints the line of the
  generic clause.  A \<open>NoCredentialsError\<close> is handled by the missing-credentials clause.
\<close>

theorem partial_credentials_take_generic_branch:
  "events (create_s3_bucket cfg (Some \<lparr>cls = PartialCredentialsError, msg = m\<rparr>)) =
     [S3CreateBucket (bucket_name cfg)
        (if region cfg = Some ''us-east-1'' then None else Some (region cfg)),
      Print (''Error creating S3 bucket: '' @ m)] \<and>
   events (create_s3_bucket cfg (Some \<lparr>cls = NoCredentialsError, msg = m\<rparr>)) =
     [S3CreateBucket (bucket_name cfg)
        (if region cfg = Some ''us-east-1'' then None else Some (region cfg)),
      Print ''AWS credentials not found. Please configure your credentials.'']"
  by (simp add: create_s3_bucket_def io_defs isinstance_def)

text \<open>
  C9.  For every configured bucket name \<open>b\<close>, the only object the upload step writes is
  \<open>s3://b/raw-data/nba_player_data.jsonl\<close>: it writes exactly that one whenever the
  transcoder returns, as it does on every value the fetch step can hand over, and
  nothing when the transcoder raises.  The table definition declares the location
  \<open>s3://b/raw-data/\<close>, and the declared location is a prefix of the object's location.
\<close>

theorem table_location_prefix_of_upload:
  assumes "bucket_name cfg = Some b"
  shows "List.map_filter object_uri (events (upload_data_to_s3 cfg data a)) =
           (case outcome (convert_to_line_delimited_json data) of
              Inl e \<Rightarrow> []
            | Inr s \<Rightarrow> [s3_uri b ''raw-data/nba_player_data.jsonl'']) \<and>
         List.map_filter object_uri (events (upload_data_to_s3 cfg (of_json j) a)) =
           [s3_uri b ''raw-data/nba_player_data.jsonl''] \<and>
         List.map_filter table_location (events (create_glue_table cfg a')) =
           [s3_uri b ''raw-data/''] \<and>
         prefix (s3_uri b ''raw-data/'') (s3_uri b ''raw-data/nba_player_data.jsonl'')"
proof -
  have 1: "List.map_filter object_uri (events (upload_data_to_s3 cfg d a)) =
           (case outcome (convert_to_line_delimited_json d) of
              Inl e \<Rightarrow> []
            | Inr s \<Rightarrow> [s3_uri b ''raw-data/nba_player_data.jsonl''])" for d
  proof -
    obtain t r where c: "convert_to_line_delimited_json d = (t, r)"
      by (cases "convert_to_line_delimited_json d")
    have t: "List.map_filter object_uri t = []"
      using c
      by (auto simp: convert_to_line_delimited_json_def io_defs List.map_filter_simps
          split: sum.splits prod.splits if_splits)
    show ?thesis
      using t assms
      by (cases r; cases a)
         (simp_all add: upload_data_to_s3_def c try_except_def bind_io_def call_def emit_def
            ret_def raise_def file_key_def List.map_filter_simps map_filter_app)
  qed
  have 2: "List.map_filter object_uri (events (upload_data_to_s3 cfg (of_json j) a)) =
           [s3_uri b ''raw-data/nba_player_data.jsonl'']"
    using 1 [of "of_json j"] convert_of_json [of j] by auto
  have 3: "List.map_filter table_location (events (create_glue_table cfg a')) =
           [s3_uri b ''raw-data/'']"
    using assms
    by (cases a')
       (simp_all add: create_glue_table_def io_defs nba_players_def pystr_def s3_uri_def
          List.map_filter_simps)
  have 4: "prefix (s3_uri b ''raw-data/'') (s3_uri b ''raw-data/nba_player_data.jsonl'')"
    by (simp add: s3_uri_def)
  from 1 [of data] 2 3 4 show ?thesis by blast
qed

theorem table_location_prefix_of_upload_witness:
  "bucket_name example_config = Some ''sports-analytics-data-lake'' \<and>
   List.map_filter object_uri
     (events (upload_data_to_s3 example_config (of_json (JList [JInt 1])) None)) =
     [''s3://sports-analytics-data-lake/raw-data/nba_player_data.jsonl''] \<and>
   List.map_filter table_location (events (create_glue_table example_config None)) =
     [''s3://sports-analytics-data-lake/raw-data/'']"
proof -
  have h: "bucket_name example_config = Some ''sports-analytics-data-lake''"
    by (simp add: example_config_def)
  have "List.map_filter object_uri
          (events (upload_data_to_s3 example_config (of_json (JList [JInt 1])) None)) =
          [s3_uri ''sports-analytics-data-lake'' ''raw-data/nba_player_data.jsonl''] \<and>
        List.map_filter table_location (events (create_glue_table example_config None)) =
          [s3_uri ''sports-analytics-data-lake'' ''raw-data/'']"
    using table_location_prefix_of_upload [OF h, of PNone None "JList [JInt 1]" None]
    by blast
  then show ?thesis
    using h by (simp add: s3_uri_def del: of_json.simps)
qed

subsection \<open>The record transcoder\<close>

text \<open>
  Helper facts: the decoder reads back what the encoder writes (strings, integers, then
  whole values), the encoder writes no line break, and splitting a joined text gives the
  lines that were joined.
\<close>

lemma hex_val_hex_digit: "d < 16 \<Longrightarrow> hex_val (hex_digit d) = Some d"
  by (auto simp: hex_val_def hex_digit_def Let_def)

lemma char_of_div_mod:
  "char_of ((of_char c :: nat) div 16 * 16 + (of_char c :: nat) mod 16) = c"
  by simp

lemma hex_val_zero: "hex_val (CHR ''0'') = Some 0"
  by (simp add: hex_val_def)

lemma parse_chars_plain:
  "c \<noteq> CHR 0x22 \<Longrightarrow> c \<noteq> CHR 0x5C \<Longrightarrow> 32 \<le> (of_char c :: nat) \<Longrightarrow>
   parse_chars (c # t) = cons_char c (parse_chars t)"
  by simp

lemma parse_chars_short:
  "unescape e = Some c \<Longrightarrow> e \<noteq> CHR ''u'' \<Longrightarrow>
   parse_chars (CHR 0x5C # e # t) = cons_char c (parse_chars t)"
  by simp

lemma parse_chars_u00:
  "parse_chars (CHR 0x5C # CHR ''u'' # CHR ''0'' # CHR ''0'' #
                hex_digit ((of_char c :: nat) div 16) # hex_digit ((of_char c :: nat) mod 16) # t) =
   cons_char c (parse_chars t)"
proof -
  have lt: "(of_char c :: nat) div 16 < 16"
    by (rule less_mult_imp_div_less) simp
  have v: "(of_char c :: nat) div 16 * 16 + (of_char c :: nat) mod 16 = of_char c"
    by simp
  show ?thesis
    by (simp add: hex_val_zero hex_val_hex_digit lt v)
qed

lemma parse_chars_escape: "parse_chars (escape_char c @ t) = cons_char c (parse_chars t)"
proof -
  consider (quote) "c = CHR 0x22" | (backslash) "c = CHR 0x5C" | (nl) "c = CHR 0x0A"
    | (cr) "c = CHR 0x0D" | (tab) "c = CHR 0x09" | (bs) "c = CHR 0x08" | (ff) "c = CHR 0x0C"
    | (plain) "c \<noteq> CHR 0x22" "c \<noteq> CHR 0x5C" "c \<noteq> CHR 0x0A" "c \<noteq> CHR 0x0D" "c \<noteq> CHR 0x09"
        "c \<noteq> CHR 0x08" "c \<noteq> CHR 0x0C" "32 \<le> (of_char c :: nat) \<and> (of_char c :: nat) \<le> 126"
    | (other) "c \<noteq> CHR 0x22" "c \<noteq> CHR 0x5C" "c \<noteq> CHR 0x0A" "c \<noteq> CHR 0x0D" "c \<noteq> CHR 0x09"
        "c \<noteq> CHR 0x08" "c \<noteq> CHR 0x0C" "\<not> (32 \<le> (of_char c :: nat) \<and> (of_char c :: nat) \<le> 126)"
    by blast
  then show ?thesis
  proof cases
    case quote
    then show ?thesis
      by (simp add: escape_char_def parse_chars_short unescape_def del: parse_chars.simps)
  next
    case backslash
    then show ?thesis
      by (simp add: escape_char_def parse_chars_short unescape_def del: parse_chars.simps)
  next
    case nl
    then show ?thesis
      by (simp add: escape_char_def parse_chars_short unescape_def del: parse_chars.simps)
  next
    case cr
    then show ?thesis
      by (simp add: escape_char_def parse_chars_short unescape_def del: parse_chars.simps)
  next
    case tab
    then show ?thesis
      by (simp add: escape_char_def parse_chars_short unescape_def del: parse_chars.simps)
  next
    case bs
    then show ?thesis
      by (simp add: escape_char_def parse_chars_short unescape_def del: parse_chars.simps)
  next
    case ff
    then show ?thesis
      by (simp add: escape_char_def parse_chars_short unescape_def del: parse_chars.simps)
  next
    case plain
    then show ?thesis
      by (simp add: escape_char_def parse_chars_plain del: parse_chars.simps)
  next
    case other
    then show ?thesis
      by (auto simp add: escape_char_def parse_chars_u00 simp del: parse_chars.simps)
  qed
qed

lemma parse_chars_quote: "parse_chars (CHR 0x22 # rest) = Some ([], rest)"
  by simp

lemma parse_chars_encode:
  "parse_chars (concat (map escape_char s) @ CHR 0x22 # rest) = Some (s, rest)"
  by (induction s)
     (simp_all add: parse_chars_escape parse_chars_quote cons_char_def del: parse_chars.simps)

lemma char_of_eq: "n < 256 \<Longrightarrow> (char_of (n :: nat) = c) = (n = of_char c)"
  by (simp add: char_of_eq_iff take_bit_nat_eq_self)

lemma is_digit_digit_char: "d < 10 \<Longrightarrow> is_digit (digit_char d)"
  by (simp add: is_digit_def digit_char_def)

lemma digit_val_digit_char: "d < 10 \<Longrightarrow> digit_val (digit_char d) = d"
  by (simp add: digit_val_def digit_char_def)

lemma digits_of_digits: "c \<in> set (digits_of n) \<Longrightarrow> is_digit c"
proof (induction n rule: digits_of.induct)
  case (1 n)
  then show ?case
    by (subst (asm) (2) digits_of.simps) (auto simp: is_digit_digit_char split: if_splits)
qed

lemma digits_of_nonempty: "digits_of n \<noteq> []"
  by (subst digits_of.simps) simp

lemma nat_of_digits_snoc: "nat_of_digits (ds @ [c]) = 10 * nat_of_digits ds + digit_val c"
  by (simp add: nat_of_digits_def)

lemma nat_of_digits_digits_of: "nat_of_digits (digits_of n) = n"
proof (induction n rule: digits_of.induct)
  case (1 n)
  show ?case
  proof (cases "n < 10")
    case True
    then show ?thesis
      by (subst digits_of.simps) (simp add: nat_of_digits_def digit_val_digit_char)
  next
    case False
    with 1 show ?thesis
      by (subst digits_of.simps) (simp add: nat_of_digits_snoc digit_val_digit_char)
  qed
qed

lemma hd_digits_of: "0 < n \<Longrightarrow> hd (digits_of n) \<noteq> CHR ''0''"
proof (induction n rule: digits_of.induct)
  case (1 n)
  show ?case
  proof (cases "n < 10")
    case True
    with 1(2) show ?thesis
      by (subst digits_of.simps) (simp add: digit_char_def char_of_eq)
  next
    case False
    then have "0 < n div 10" by simp
    with 1(1) False have "hd (digits_of (n div 10)) \<noteq> CHR ''0''" by simp
    with False show ?thesis
      by (subst digits_of.simps) (simp add: digits_of_nonempty)
  qed
qed

lemma digits_of_zero: "digits_of 0 = ''0''"
  by (subst digits_of.simps) (simp add: digit_char_def char_of_eq)

lemma follows_not_digit:
  "follows_value rest \<Longrightarrow> rest = [] \<or> (\<not> is_digit (hd rest) \<and> hd rest \<noteq> CHR ''.''
     \<and> hd rest \<noteq> CHR ''e'' \<and> hd rest \<noteq> CHR ''E'')"
  by (cases rest) (auto simp: follows_value_def is_digit_def)

lemma takeWhile_digits:
  "rest = [] \<or> \<not> is_digit (hd rest) \<Longrightarrow>
   takeWhile is_digit (digits_of n @ rest) = digits_of n \<and>
   dropWhile is_digit (digits_of n @ rest) = rest"
  by (cases rest) (auto simp: takeWhile_append dropWhile_append digits_of_digits
        dest: digits_of_digits)

lemma parse_number_digits:
  assumes "follows_value rest"
  shows "parse_number (digits_of n @ rest) = Some (PInt (int n), rest)"
proof -
  from follows_not_digit [OF assms]
  have r: "rest = [] \<or> \<not> is_digit (hd rest)"
    and f: "rest = [] \<or> (hd rest \<noteq> CHR ''.'' \<and> hd rest \<noteq> CHR ''e'' \<and> hd rest \<noteq> CHR ''E'')"
    by auto
  have m: "hd (digits_of n @ rest) \<noteq> CHR ''-''"
    using digits_of_digits [of "hd (digits_of n)" n] digits_of_nonempty [of n]
    by (auto simp: is_digit_def)
  have z: "hd (digits_of n) = CHR ''0'' \<Longrightarrow> tl (digits_of n) = []"
    using hd_digits_of [of n] by (cases "n = 0") (auto simp: digits_of_zero)
  show ?thesis
    using takeWhile_digits [OF r, of n] m z f digits_of_nonempty [of n]
    by (auto simp: parse_number_def Let_def nat_of_digits_digits_of)
qed

lemma parse_number_neg:
  assumes "follows_value rest" and "0 < n"
  shows "parse_number (CHR ''-'' # digits_of n @ rest) = Some (PInt (- int n), rest)"
proof -
  from follows_not_digit [OF assms(1)]
  have r: "rest = [] \<or> \<not> is_digit (hd rest)"
    and f: "rest = [] \<or> (hd rest \<noteq> CHR ''.'' \<and> hd rest \<noteq> CHR ''e'' \<and> hd rest \<noteq> CHR ''E'')"
    by auto
  show ?thesis
    using takeWhile_digits [OF r, of n] f digits_of_nonempty [of n] hd_digits_of [OF assms(2)]
    by (auto simp: parse_number_def Let_def nat_of_digits_digits_of)
qed

lemma parse_number_show_int:
  "follows_value rest \<Longrightarrow> parse_number (show_int i @ rest) = Some (PInt i, rest)"
  using parse_number_digits [of rest "nat i"] parse_number_neg [of rest "nat (- i)"]
  by (auto simp: show_int_def)

lemma skip_ws_starts: "starts_value s \<Longrightarrow> skip_ws s = s"
  by (cases s) (simp_all add: starts_value_def skip_ws_def)

lemma skip_ws_space: "skip_ws (CHR 0x20 # s) = skip_ws s"
  by (simp add: skip_ws_def is_ws_def)

lemma skip_ws_punct:
  "skip_ws (CHR '','' # s) = CHR '','' # s"
  "skip_ws (CHR '']'' # s) = CHR '']'' # s"
  "skip_ws (CHR ''}'' # s) = CHR ''}'' # s"
  "skip_ws (CHR '':'' # s) = CHR '':'' # s"
  by (simp_all add: skip_ws_def is_ws_def)

lemma starts_value_append: "starts_value s \<Longrightarrow> starts_value (s @ t)"
  by (cases s) (simp_all add: starts_value_def)

lemma show_int_first:
  "\<exists>c cs. show_int i = c # cs \<and> (c = CHR ''-'' \<or> is_digit c)"
proof (cases "i < 0")
  case True
  then show ?thesis by (simp add: show_int_def)
next
  case False
  obtain c cs where d: "digits_of (nat i) = c # cs"
    using digits_of_nonempty [of "nat i"] by (cases "digits_of (nat i)") auto
  then have "is_digit c"
    using digits_of_digits [of c "nat i"] by simp
  with d False show ?thesis by (simp add: show_int_def)
qed

lemma starts_value_show_int: "starts_value (show_int i)"
  using show_int_first [of i] by (auto simp: starts_value_def is_ws_def is_digit_def)

lemma starts_value_encode_str: "starts_value (encode_str s)"
  by (simp add: starts_value_def encode_str_def is_ws_def)

lemma starts_value_encode:
  "encode v = Inr s \<Longrightarrow> starts_value s"
  "encode_items xs = Inr s \<Longrightarrow> xs \<noteq> [] \<Longrightarrow> starts_value s"
  "encode_members kvs = Inr s \<Longrightarrow> kvs \<noteq> [] \<Longrightarrow> starts_value s"
proof (induction v and xs and kvs arbitrary: s and s and s
    rule: encode_encode_items_encode_members.induct)
  case (3 i)
  then show ?case using starts_value_show_int by auto
next
  case (4 str)
  then show ?case using starts_value_encode_str by auto
next
  case (11 x y ys)
  then show ?case
    by (auto split: sum.splits intro: starts_value_append)
next
  case (13 k v)
  then show ?case
    by (auto split: sum.splits option.splits intro: starts_value_append starts_value_encode_str)
next
  case (14 k v kv kvs)
  then show ?case
    by (auto split: sum.splits option.splits intro: starts_value_append starts_value_encode_str)
qed (auto simp: starts_value_def is_ws_def split: sum.splits)

lemma follows_value_simps:
  "follows_value (CHR '']'' # r)" "follows_value (CHR ''}'' # r)" "follows_value (CHR '','' # r)"
  by (simp_all add: follows_value_def)

lemma dict_store_fresh: "k \<notin> fst ` set d \<Longrightarrow> dict_store k v d = d @ [(k, v)]"
  by (induction d) auto

lemma foldl_dict_store:
  "distinct (map fst (d @ ps)) \<Longrightarrow>
   foldl (\<lambda>d kv. dict_store (fst kv) (snd kv) d) d ps = d @ ps"
proof (induction ps arbitrary: d)
  case Nil
  then show ?case by simp
next
  case (Cons p ps)
  have "dict_store (fst p) (snd p) d = d @ [p]"
    using Cons.prems by (simp add: dict_store_fresh)
  then show ?case
    using Cons.IH [of "d @ [p]"] Cons.prems by simp
qed

lemma dict_of_pairs_distinct: "distinct (map fst ps) \<Longrightarrow> dict_of_pairs ps = ps"
  using foldl_dict_store [of "[]" ps] by (simp add: dict_of_pairs_def)

lemma digit_not_special:
  "is_digit c \<Longrightarrow> c \<noteq> CHR 0x22 \<and> c \<noteq> CHR ''['' \<and> c \<noteq> CHR ''{'' \<and> c \<noteq> CHR ''n''
     \<and> c \<noteq> CHR ''t'' \<and> c \<noteq> CHR ''f''"
  by (auto simp: is_digit_def)

lemma parse_value_literals:
  "parse_value (Suc m) (''null'' @ rest) = Some (PNone, rest)"
  "parse_value (Suc m) (''true'' @ rest) = Some (PBool True, rest)"
  "parse_value (Suc m) (''false'' @ rest) = Some (PBool False, rest)"
  by simp_all

lemma parse_value_string:
  "parse_value (Suc m) (encode_str x @ rest) = Some (PStr x, rest)"
  by (simp add: encode_str_def parse_chars_encode del: parse_chars.simps)

lemma parse_value_other:
  "c \<noteq> CHR 0x22 \<Longrightarrow> c \<noteq> CHR ''['' \<Longrightarrow> c \<noteq> CHR ''{'' \<Longrightarrow> c \<noteq> CHR ''n'' \<Longrightarrow>
   c \<noteq> CHR ''t'' \<Longrightarrow> c \<noteq> CHR ''f'' \<Longrightarrow>
   parse_value (Suc m) (c # r) = parse_number (c # r)"
  by simp

lemma parse_value_number:
  assumes "c = CHR ''-'' \<or> is_digit c"
  shows "parse_value (Suc m) (c # r) = parse_number (c # r)"
proof -
  have "c \<noteq> CHR 0x22 \<and> c \<noteq> CHR ''['' \<and> c \<noteq> CHR ''{'' \<and> c \<noteq> CHR ''n''
     \<and> c \<noteq> CHR ''t'' \<and> c \<noteq> CHR ''f''"
    using assms digit_not_special [of c] by blast
  then show ?thesis
    by (blast intro: parse_value_other)
qed

lemma parse_value_int:
  assumes "follows_value rest"
  shows "parse_value (Suc m) (show_int i @ rest) = Some (PInt i, rest)"
proof -
  obtain c cs where e: "show_int i = c # cs" and c: "c = CHR ''-'' \<or> is_digit c"
    using show_int_first by blast
  have "parse_value (Suc m) (c # cs @ rest) = parse_number (c # cs @ rest)"
    using c by (rule parse_value_number)
  then show ?thesis
    using parse_number_show_int [OF assms, of i] by (simp add: e del: parse_value.simps)
qed

lemma parse_value_empty:
  "parse_value (Suc m) (''[]'' @ rest) = Some (PList [], rest)"
  "parse_value (Suc m) (''{}'' @ rest) = Some (PDict [], rest)"
  by (simp_all add: skip_ws_punct dict_of_pairs_def)

lemma starts_value_Cons:
  "starts_value s \<Longrightarrow> \<exists>d r. s = d # r \<and> d \<noteq> CHR '']'' \<and> d \<noteq> CHR ''}''"
  by (cases s) (simp_all add: starts_value_def)

lemma parse_value_list:
  assumes "starts_value s" and "parse_elements m (s @ t) = Some (xs, rest)"
  shows "parse_value (Suc m) (CHR ''['' # s @ t) = Some (PList xs, rest)"
proof -
  obtain d r where s: "s = d # r" and d: "d \<noteq> CHR '']''"
    using starts_value_Cons [OF assms(1)] by blast
  have "skip_ws (s @ t) = d # r @ t"
    using skip_ws_starts [OF starts_value_append [OF assms(1)], of t] s by simp
  then show ?thesis
    using assms(2) d s by simp
qed

lemma parse_value_dict:
  assumes "starts_value s" and "parse_members m (s @ t) = Some (kvs, rest)"
  shows "parse_value (Suc m) (CHR ''{'' # s @ t) = Some (PDict (dict_of_pairs kvs), rest)"
proof -
  obtain d r where s: "s = d # r" and d: "d \<noteq> CHR ''}''"
    using starts_value_Cons [OF assms(1)] by blast
  have "skip_ws (s @ t) = d # r @ t"
    using skip_ws_starts [OF starts_value_append [OF assms(1)], of t] s by simp
  then show ?thesis
    using assms(2) d s by simp
qed

lemma parse_elements_last:
  "parse_value m s = Some (v, CHR '']'' # rest) \<Longrightarrow>
   parse_elements (Suc m) s = Some ([v], rest)"
  by (simp add: skip_ws_punct)

lemma parse_elements_more:
  assumes "parse_value m s = Some (v, '', '' @ t)" and "starts_value t"
    and "parse_elements m t = Some (vs, rest)"
  shows "parse_elements (Suc m) s = Some (v # vs, rest)"
  using assms by (simp add: skip_ws_punct skip_ws_space skip_ws_starts)

lemma parse_members_last:
  assumes "starts_value t" and "parse_value m t = Some (v, CHR ''}'' # rest)"
  shows "parse_members (Suc m) (encode_str k @ '': '' @ t) = Some ([(KStr k, v)], rest)"
  using assms
  by (simp add: encode_str_def parse_chars_encode skip_ws_punct skip_ws_space skip_ws_starts
      del: parse_chars.simps)

lemma parse_members_more:
  assumes "starts_value t" and "parse_value m t = Some (v, '', '' @ u)"
    and "starts_value u" and "parse_members m u = Some (kvs, rest)"
  shows "parse_members (Suc m) (encode_str k @ '': '' @ t) = Some ((KStr k, v) # kvs, rest)"
  using assms
  by (simp add: encode_str_def parse_chars_encode skip_ws_punct skip_ws_space skip_ws_starts
      del: parse_chars.simps)

lemma encode_round_trip:
  "wf_json v \<Longrightarrow> encode v = Inr s \<Longrightarrow> length s < n \<Longrightarrow> follows_value rest \<Longrightarrow>
     parse_value n (s @ rest) = Some (v, rest)"
  "xs \<noteq> [] \<Longrightarrow> wf_items xs \<Longrightarrow> encode_items xs = Inr s \<Longrightarrow> length s + 2 \<le> n \<Longrightarrow>
     parse_elements n (s @ CHR '']'' # rest) = Some (xs, rest)"
  "kvs \<noteq> [] \<Longrightarrow> wf_members kvs \<Longrightarrow> encode_members kvs = Inr s \<Longrightarrow> length s + 2 \<le> n \<Longrightarrow>
     parse_members n (s @ CHR ''}'' # rest) = Some (kvs, rest)"
proof (induction v and xs and kvs arbitrary: s n rest and s n rest and s n rest
    rule: encode_encode_items_encode_members.induct)
  case 1
  then obtain m where "n = Suc m" by (cases n) auto
  with 1 show ?case by auto
next
  case (2 b)
  then obtain m where "n = Suc m" by (cases n) auto
  with 2 show ?case by (cases b) auto
next
  case (3 i)
  then obtain m where "n = Suc m" by (cases n) auto
  with 3 show ?case by (auto simp add: parse_value_int simp del: parse_value.simps)
next
  case (4 str)
  then obtain m where "n = Suc m" by (cases n) auto
  with 4 show ?case by (auto simp add: parse_value_string simp del: parse_value.simps)
next
  case (5 xs)
  then obtain m where n: "n = Suc m" by (cases n) auto
  from 5(3) obtain s' where s': "encode_items xs = Inr s'" and s: "s = CHR ''['' # s' @ '']''"
    by (auto split: sum.splits)
  show ?case
  proof (cases "xs = []")
    case True
    with s' s n show ?thesis
      using parse_value_empty(1) [of m rest] by (simp del: parse_value.simps)
  next
    case False
    have st: "starts_value s'"
      using starts_value_encode(2) [OF s' False] .
    have "parse_elements m (s' @ CHR '']'' # rest) = Some (xs, rest)"
      using 5(1) [OF False _ s', of m rest] 5(2) 5(4) s n by simp
    from parse_value_list [OF st this] show ?thesis
      by (simp add: s n del: parse_value.simps)
  qed
next
  case (6 kvs)
  then obtain m where n: "n = Suc m" by (cases n) auto
  from 6(3) obtain s' where s': "encode_members kvs = Inr s'" and s: "s = CHR ''{'' # s' @ ''}''"
    by (auto split: sum.splits)
  from 6(2) have d: "dict_of_pairs kvs = kvs"
    by (simp add: dict_of_pairs_distinct)
  show ?case
  proof (cases "kvs = []")
    case True
    with s' s n show ?thesis
      using parse_value_empty(2) [of m rest] by (simp del: parse_value.simps)
  next
    case False
    have st: "starts_value s'"
      using starts_value_encode(3) [OF s' False] .
    have "parse_members m (s' @ CHR ''}'' # rest) = Some (kvs, rest)"
      using 6(1) [OF False _ s', of m rest] 6(2) 6(4) s n by simp
    from parse_value_dict [OF st this] show ?thesis
      by (simp add: s n d del: parse_value.simps)
  qed
next
  case 7
  then show ?case by simp
next
  case 8
  then show ?case by simp
next
  case 9
  then show ?case by simp
next
  case (10 x)
  then obtain m where n: "n = Suc m" by (cases n) auto
  have "parse_value m (s @ CHR '']'' # rest) = Some (x, CHR '']'' # rest)"
    using 10(1) [of s m "CHR '']'' # rest"] 10(3,4,5) n by (simp add: follows_value_simps)
  from parse_elements_last [OF this] show ?case by (simp add: n)
next
  case (11 x y ys)
  then obtain m where n: "n = Suc m" by (cases n) auto
  from 11(5) obtain a b where a: "encode x = Inr a" and b: "encode_items (y # ys) = Inr b"
    and s: "s = a @ '', '' @ b"
    by (auto split: sum.splits)
  have pv: "parse_value m (a @ '', '' @ b @ CHR '']'' # rest) = Some (x, '', '' @ b @ CHR '']'' # rest)"
    using 11(1) [of a m "'', '' @ b @ CHR '']'' # rest"] 11(4,6) a s n
    by (simp add: follows_value_def)
  have st: "starts_value (b @ CHR '']'' # rest)"
    using starts_value_encode(2) [OF b] by (simp add: starts_value_append)
  have pe: "parse_elements m (b @ CHR '']'' # rest) = Some (y # ys, rest)"
    using 11(2) [OF a _ _ b, of m rest] 11(4,6) s n by simp
  from parse_elements_more [OF pv st pe] show ?case
    by (simp add: s n del: parse_elements.simps)
next
  case 12
  then show ?case by simp
next
  case (13 k v)
  then obtain m where n: "n = Suc m" by (cases n) auto
  from 13(3) obtain ks where k: "k = KStr ks" by (cases k) auto
  from 13(4) k obtain a where a: "encode v = Inr a" and s: "s = encode_str ks @ '': '' @ a"
    by (auto split: sum.splits)
  have st: "starts_value (a @ CHR ''}'' # rest)"
    using starts_value_encode(1) [OF a] by (simp add: starts_value_append)
  have pv: "parse_value m (a @ CHR ''}'' # rest) = Some (v, CHR ''}'' # rest)"
    using 13(1) [of ks a m "CHR ''}'' # rest"] 13(3,5) k a s n
    by (simp add: follows_value_simps)
  from parse_members_last [OF st pv, of ks] show ?case
    by (simp add: s n k del: parse_members.simps)
next
  case (14 k v kv kvs)
  then obtain m where n: "n = Suc m" by (cases n) auto
  from 14(4) obtain ks where k: "k = KStr ks" by (cases k) auto
  from 14(5) k obtain a b where a: "encode v = Inr a"
    and b: "encode_members (kv # kvs) = Inr b"
    and s: "s = encode_str ks @ '': '' @ a @ '', '' @ b"
    by (auto split: sum.splits)
  have st: "starts_value (a @ '', '' @ b @ CHR ''}'' # rest)"
    using starts_value_encode(1) [OF a] by (simp add: starts_value_append)
  have pv: "parse_value m (a @ '', '' @ b @ CHR ''}'' # rest) =
              Some (v, '', '' @ b @ CHR ''}'' # rest)"
    using 14(1) [of ks a m "'', '' @ b @ CHR ''}'' # rest"] 14(4,6) k a s n
    by (simp add: follows_value_def)
  have su: "starts_value (b @ CHR ''}'' # rest)"
    using starts_value_encode(3) [OF b] by (simp add: starts_value_append)
  have pm: "parse_members m (b @ CHR ''}'' # rest) = Some (kv # kvs, rest)"
    using 14(2) [OF _ a _ _ b, of ks m rest] 14(4,6) k s n by (cases kv) simp
  from parse_members_more [OF st pv su pm, of ks] show ?case
    by (simp add: s n k del: parse_members.simps)
qed

lemma json_loads_encode:
  assumes "wf_json v" and "encode v = Inr s"
  shows "json_loads s = Some v"
proof -
  have "skip_ws s = s"
    using starts_value_encode(1) [OF assms(2)] by (rule skip_ws_starts)
  moreover have "parse_value (Suc (length s)) (s @ []) = Some (v, [])"
    using assms by (intro encode_round_trip(1)) (simp_all add: follows_value_def)
  ultimately show ?thesis
    by (simp add: json_loads_def skip_ws_def del: parse_value.simps)
qed

lemma wf_json_encodes:
  "wf_json v \<Longrightarrow> \<exists>s. encode v = Inr s"
  "wf_items xs \<Longrightarrow> \<exists>s. encode_items xs = Inr s"
  "wf_members kvs \<Longrightarrow> \<exists>s. encode_members kvs = Inr s"
proof (induction v and xs and kvs rule: encode_encode_items_encode_members.induct)
  case (13 k v)
  then show ?case by (cases k) auto
next
  case (14 k v kv kvs)
  then show ?case by (cases k; cases kv) fastforce+
qed auto

lemma newline_escape_char: "newline \<notin> set (escape_char c)"
proof -
  have h': "hex_digit d \<noteq> CHR 0x0A" if "d < 16" for d
    using that by (auto simp: hex_digit_def char_of_eq)
  have h: "CHR 0x0A \<noteq> hex_digit d" if "d < 16" for d
    using h' [OF that] by (rule not_sym)
  have "(of_char c :: nat) div 16 < 16"
    by (rule less_mult_imp_div_less) simp
  then have 1: "CHR 0x0A \<noteq> hex_digit ((of_char c :: nat) div 16)"
    by (rule h)
  have 2: "CHR 0x0A \<noteq> hex_digit ((of_char c :: nat) mod 16)"
    by (rule h) simp
  show ?thesis
    using 1 2 by (auto simp: escape_char_def newline_def)
qed

lemma newline_encode_str: "newline \<notin> set (encode_str s)"
  using newline_escape_char by (auto simp: encode_str_def newline_def)

lemma newline_show_int: "newline \<notin> set (show_int i)"
  using digits_of_digits [of newline]
  by (auto simp: show_int_def newline_def is_digit_def)

lemma newline_encode:
  "encode v = Inr s \<Longrightarrow> newline \<notin> set s"
  "encode_items xs = Inr s \<Longrightarrow> newline \<notin> set s"
  "encode_members kvs = Inr s \<Longrightarrow> newline \<notin> set s"
proof (induction v and xs and kvs arbitrary: s and s and s
    rule: encode_encode_items_encode_members.induct)
  case (3 i)
  then show ?case using newline_show_int by auto
next
  case (4 str)
  then show ?case using newline_encode_str by auto
next
  case (13 k v)
  then show ?case
    using newline_encode_str by (auto simp: newline_def split: sum.splits option.splits)
next
  case (14 k v kv kvs)
  then show ?case
    using newline_encode_str by (auto simp: newline_def split: sum.splits option.splits)
qed (auto simp: newline_def split: sum.splits)

lemma lines_from_line:
  "newline \<notin> set l \<Longrightarrow>
   lines_from cur (l @ newline # s) = (rev cur @ l) # lines_from [] s"
  by (induction l arbitrary: cur) auto

lemma lines_from_last:
  "newline \<notin> set l \<Longrightarrow> l \<noteq> [] \<Longrightarrow> lines_from cur l = [rev cur @ l]"
proof (induction l arbitrary: cur)
  case Nil
  then show ?case by simp
next
  case (Cons a l)
  then show ?case by (cases "l = []") auto
qed

lemma splitlines_join:
  "(\<And>l. l \<in> set ls \<Longrightarrow> newline \<notin> set l \<and> l \<noteq> []) \<Longrightarrow>
   splitlines (join [newline] ls) = ls"
proof (induction "[newline]" ls rule: join.induct)
  case 1
  then show ?case by (simp add: splitlines_def)
next
  case (2 x)
  then show ?case using lines_from_last [of x "[]"] by (simp add: splitlines_def)
next
  case (3 x y ys)
  then show ?case
    using lines_from_line [of x "[]" "join [newline] (y # ys)"]
    by (simp add: splitlines_def)
qed

lemma dumps_each_ok:
  "(\<And>r. r \<in> set rs \<Longrightarrow> wf_json r) \<Longrightarrow>
   \<exists>ls. dumps_each rs = Inr ls \<and> map json_dumps rs = map Inr ls"
proof (induction rs)
  case Nil
  then show ?case by simp
next
  case (Cons r rs)
  then obtain ls where "dumps_each rs = Inr ls" "map json_dumps rs = map Inr ls"
    by auto
  moreover obtain s where "json_dumps r = Inr s"
    using wf_json_encodes(1) [of r] Cons.prems by (auto simp: json_dumps_def)
  ultimately show ?case by simp
qed

lemma dumps_each_first_failure:
  "(\<And>p. p \<in> set pre \<Longrightarrow> \<exists>s. json_dumps p = Inr s) \<Longrightarrow> json_dumps r = Inl e \<Longrightarrow>
   dumps_each (pre @ r # post) = Inl e"
proof (induction pre)
  case Nil
  then show ?case by simp
next
  case (Cons p pre)
  then obtain s where "json_dumps p = Inr s" by auto
  moreover have "dumps_each (pre @ r # post) = Inl e"
    using Cons by simp
  ultimately show ?case by simp
qed

lemma convert_list_ok:
  "dumps_each rs = Inr ls \<Longrightarrow>
   convert_to_line_delimited_json (PList rs) =
     ([Print ''Converting data to line-delimited JSON format...''], Inr (join [newline] ls))"
  by (simp add: convert_to_line_delimited_json_def io_defs)

lemma convert_list_fails:
  "dumps_each rs = Inl e \<Longrightarrow> isinstance e TypeError \<Longrightarrow>
   convert_to_line_delimited_json (PList rs) =
     ([Print ''Converting data to line-delimited JSON format...'',
       Print (''Error converting data to JSON: '' @ msg e)], Inr [])"
  by (simp add: convert_to_line_delimited_json_def io_defs)

lemma convert_list_raises:
  "dumps_each rs = Inl e \<Longrightarrow> \<not> isinstance e TypeError \<Longrightarrow>
   convert_to_line_delimited_json (PList rs) =
     ([Print ''Converting data to line-delimited JSON format...''], Inl e)"
  by (simp add: convert_to_line_delimited_json_def io_defs)

lemma dumps_each_Cons:
  "dumps_each (r # rs) = Inr ls \<Longrightarrow>
   \<exists>l ls'. ls = l # ls' \<and> encode r = Inr l \<and> dumps_each rs = Inr ls'"
  by (auto simp: json_dumps_def split: sum.splits)

lemma dumps_each_map: "dumps_each rs = Inr ls \<Longrightarrow> map json_dumps rs = map Inr ls"
proof (induction rs arbitrary: ls)
  case Nil
  then show ?case by simp
next
  case (Cons r rs)
  from dumps_each_Cons [OF Cons.prems] obtain l ls' where
    "ls = l # ls'" "encode r = Inr l" "dumps_each rs = Inr ls'" by blast
  with Cons.IH [of ls'] show ?case by (simp add: json_dumps_def)
qed

lemma dumps_each_lines:
  "dumps_each rs = Inr ls \<Longrightarrow> l \<in> set ls \<Longrightarrow> newline \<notin> set l \<and> l \<noteq> []"
proof (induction rs arbitrary: ls)
  case Nil
  then show ?case by simp
next
  case (Cons r rs)
  from dumps_each_Cons [OF Cons.prems(1)] obtain l' ls' where
    e: "ls = l' # ls'" "encode r = Inr l'" "dumps_each rs = Inr ls'" by blast
  have "newline \<notin> set l' \<and> l' \<noteq> []"
    using newline_encode(1) [OF e(2)] starts_value_encode(1) [OF e(2)]
    by (cases l') (simp_all add: starts_value_def)
  with Cons.IH [OF e(3)] Cons.prems(2) e(1) show ?case by auto
qed

lemma dumps_each_loads:
  "(\<And>r. r \<in> set rs \<Longrightarrow> wf_json r) \<Longrightarrow> dumps_each rs = Inr ls \<Longrightarrow>
   map json_loads ls = map Some rs"
proof (induction rs arbitrary: ls)
  case Nil
  then show ?case by simp
next
  case (Cons r rs)
  from dumps_each_Cons [OF Cons.prems(2)] obtain l ls' where
    e: "ls = l # ls'" "encode r = Inr l" "dumps_each rs = Inr ls'" by blast
  have "json_loads l = Some r"
    using Cons.prems(1) e(2) by (intro json_loads_encode) simp_all
  moreover have "map json_loads ls' = map Some rs"
    using Cons.prems(1) e(3) by (intro Cons.IH) simp_all
  ultimately show ?case by (simp add: e(1))
qed

lemma count_newlines_join:
  "(\<And>l. l \<in> set ls \<Longrightarrow> newline \<notin> set l \<and> l \<noteq> []) \<Longrightarrow>
   length (filter (\<lambda>c. c = newline) (join [newline] ls)) = length ls - 1"
proof (induction "[newline]" ls rule: join.induct)
  case 1
  then show ?case by simp
next
  case (2 x)
  then have "filter (\<lambda>c. c = newline) x = []"
    by (auto simp: filter_empty_conv)
  then show ?case by simp
next
  case (3 x y ys)
  then have "filter (\<lambda>c. c = newline) x = []"
    by (auto simp: filter_empty_conv)
  moreover have "length (filter (\<lambda>c. c = newline) (join [newline] (y # ys))) = length (y # ys) - 1"
    using 3 by simp
  ultimately show ?case by simp
qed

text \<open>
  C5.  For every list of \<open>N\<close> well-formed records, \<open>convert_to_line_delimited_json\<close>
  returns a text of exactly \<open>N\<close> lines, separated by \<open>N - 1\<close> line breaks (none for the
  empty list); the \<open>i\<close>-th line is what \<open>json.dumps\<close> gives for the \<open>i\<close>-th record alone,
  and it parses back to that record.
\<close>

theorem line_delimited_round_trip:
  assumes "\<And>r. r \<in> set rs \<Longrightarrow> wf_json r"
  shows "\<exists>s. outcome (convert_to_line_delimited_json (PList rs)) = Inr s \<and>
             length (splitlines s) = length rs \<and>
             length (filter (\<lambda>c. c = newline) s) = length rs - 1 \<and>
             map json_dumps rs = map Inr (splitlines s) \<and>
             map json_loads (splitlines s) = map Some rs"
proof -
  obtain ls where ls: "dumps_each rs = Inr ls"
    using dumps_each_ok [OF assms] by blast
  have m: "map json_dumps rs = map Inr ls"
    using ls by (rule dumps_each_map)
  have loads: "map json_loads ls = map Some rs"
    using assms ls by (rule dumps_each_loads)
  have len: "length ls = length rs"
    using loads by (metis length_map)
  have sp: "splitlines (join [newline] ls) = ls"
    using dumps_each_lines [OF ls] by (rule splitlines_join)
  have cnt: "length (filter (\<lambda>c. c = newline) (join [newline] ls)) = length ls - 1"
    using dumps_each_lines [OF ls] by (rule count_newlines_join)
  have out: "outcome (convert_to_line_delimited_json (PList rs)) = Inr (join [newline] ls)"
    by (simp add: convert_list_ok [OF ls])
  show ?thesis
    using out sp len m loads cnt
    by (intro exI [of _ "join [newline] ls"]) (simp del: join.simps)
qed

theorem line_delimited_round_trip_witness:
  "wf_json (player 1 ''A'' ''B'' 10) \<and> wf_json (player 2 ''C'' ''D'' 20) \<and>
   (\<exists>s. outcome (convert_to_line_delimited_json (PList two_players)) = Inr s \<and>
        length (splitlines s) = 2 \<and>
        map json_loads (splitlines s) =
          [Some (player 1 ''A'' ''B'' 10), Some (player 2 ''C'' ''D'' 20)])"
proof -
  have w: "wf_json (player 1 ''A'' ''B'' 10)" "wf_json (player 2 ''C'' ''D'' 20)"
    by (simp_all add: player_def)
  have h: "wf_json r" if "r \<in> set two_players" for r
    using that w by (auto simp: two_players_def)
  have "\<exists>s. outcome (convert_to_line_delimited_json (PList two_players)) = Inr s \<and>
             length (splitlines s) = length two_players \<and>
             length (filter (\<lambda>c. c = newline) s) = length two_players - 1 \<and>
             map json_dumps two_players = map Inr (splitlines s) \<and>
             map json_loads (splitlines s) = map Some two_players"
    using h by (rule line_delimited_round_trip)
  then obtain s where s: "outcome (convert_to_line_delimited_json (PList two_players)) = Inr s"
    "length (splitlines s) = length two_players"
    "map json_loads (splitlines s) = map Some two_players"
    by blast
  have t: "length two_players = 2"
    "map Some two_players = [Some (player 1 ''A'' ''B'' 10), Some (player 2 ''C'' ''D'' 20)]"
    by (simp_all add: two_players_def)
  have "\<exists>s. outcome (convert_to_line_delimited_json (PList two_players)) = Inr s \<and>
        length (splitlines s) = 2 \<and>
        map json_loads (splitlines s) =
          [Some (player 1 ''A'' ''B'' 10), Some (player 2 ''C'' ''D'' 20)]"
    using s t by (intro exI [of _ s]) simp
  with w show ?thesis by blast
qed

text \<open>
  The two records of the end-to-end scenario give a text of two lines.  A key that is
  not a string is written as one, so such a dict does not read back as itself; this is
  why a well-formed record has string keys.
\<close>

lemma two_players_text:
  \<open>outcome (convert_to_line_delimited_json (PList two_players)) =
     Inr (''{"PlayerID": 1, "FirstName": "A", "LastName": "B", "Team": "X", "Position": "G", "Points": 10}''
          @ [newline] @
          ''{"PlayerID": 2, "FirstName": "C", "LastName": "D", "Team": "X", "Position": "G", "Points": 20}'')\<close>
  by code_simp

lemma int_key_reads_back_as_string:
  \<open>json_dumps (PDict [(KInt 7, PStr ''x'')]) = Inr ''{"7": "x"}'' \<and>
   json_loads ''{"7": "x"}'' = Some (PDict [(KStr ''7'', PStr ''x'')])\<close>
  by code_simp

text \<open>
  C8, as the claim states it, fails on a record that \<open>json.dumps\<close> rejects with an
  exception other than \<open>TypeError\<close>.  A batch whose second record is a list that contains
  itself: \<open>json.dumps\<close> raises \<open>ValueError\<close>, the \<open>except TypeError\<close> clause does not
  handle it, \<open>convert_to_line_delimited_json\<close> raises instead of returning the empty
  string, and \<open>upload_data_to_s3\<close> reports the error and writes nothing.
\<close>

theorem circular_record_raises:
  "PCycle \<in> set circular_batch \<and>
   json_dumps PCycle = Inl circular_reference \<and>
   outcome (convert_to_line_delimited_json (PList circular_batch)) = Inl circular_reference \<and>
   outcome (convert_to_line_delimited_json (PList circular_batch)) \<noteq> Inr [] \<and>
   events (upload_data_to_s3 example_config (PList circular_batch) None) =
     [Print ''Converting data to line-delimited JSON format...'',
      Print ''Error uploading data to S3: Circular reference detected''] \<and>
   filter is_put_object
     (events (upload_data_to_s3 example_config (PList circular_batch) None)) = []"
proof -
  have d: "dumps_each circular_batch = Inl circular_reference"
    by (simp add: circular_batch_def player_def json_dumps_def)
  have t: "\<not> isinstance circular_reference TypeError"
    by (simp add: isinstance_def circular_reference_def)
  have c: "convert_to_line_delimited_json (PList circular_batch) =
             ([Print ''Converting data to line-delimited JSON format...''],
              Inl circular_reference)"
    using d t by (rule convert_list_raises)
  have u: "events (upload_data_to_s3 example_config (PList circular_batch) None) =
     [Print ''Converting data to line-delimited JSON format...'',
      Print ''Error uploading data to S3: Circular reference detected'']"
    by (simp add: upload_data_to_s3_def c try_except_def bind_io_def emit_def raise_def
        isinstance_def circular_reference_def)
  show ?thesis
    by (simp add: c u) (simp add: circular_batch_def json_dumps_def)
qed

text \<open>
  C8, amended.  Let \<open>r\<close> be the first record of the list that \<open>json.dumps\<close> rejects, with
  the exception \<open>e\<close>.  When \<open>e\<close> is a \<open>TypeError\<close> (a value or a key of a type the encoder
  has no rule for), \<open>convert_to_line_delimited_json\<close> returns the empty string, whatever
  the records before \<open>r\<close> are, and \<open>upload_data_to_s3\<close> still issues its one \<open>put_object\<close>
  call, with the empty body, on the key \<open>raw-data/nba_player_data.jsonl\<close>.  When \<open>e\<close> is
  any other exception, \<open>convert_to_line_delimited_json\<close> raises \<open>e\<close> and
  \<open>upload_data_to_s3\<close> issues no \<open>put_object\<close> call.
\<close>

theorem first_rejection_decides_batch:
  assumes "\<And>p. p \<in> set pre \<Longrightarrow> \<exists>s. json_dumps p = Inr s"
    and "json_dumps r = Inl e"
  shows "outcome (convert_to_line_delimited_json (PList (pre @ r # post))) =
           (if isinstance e TypeError then Inr [] else Inl e) \<and>
         filter is_put_object (events (upload_data_to_s3 cfg (PList (pre @ r # post)) a)) =
           (if isinstance e TypeError
            then [S3PutObject (bucket_name cfg) ''raw-data/nba_player_data.jsonl'' []]
            else []) \<and>
         outcome (upload_data_to_s3 cfg (PList (pre @ r # post)) a) = Inr ()"
proof -
  have e: "dumps_each (pre @ r # post) = Inl e"
    using assms by (rule dumps_each_first_failure)
  show ?thesis
  proof (cases "isinstance e TypeError")
    case True
    show ?thesis
      using True
      by (cases a)
         (simp_all add: upload_data_to_s3_def convert_list_fails [OF e True] file_key_def
            try_except_def bind_io_def call_def emit_def ret_def raise_def)
  next
    case False
    show ?thesis
      using False
      by (cases a)
         (simp_all add: upload_data_to_s3_def convert_list_raises [OF e False] file_key_def
            try_except_def bind_io_def call_def emit_def ret_def raise_def)
  qed
qed

theorem first_rejection_decides_batch_witness:
  "(\<exists>s. json_dumps (player 1 ''A'' ''B'' 10) = Inr s) \<and>
   json_dumps (PDict [(KStr ''PlayerID'', PObj)]) = Inl not_serializable \<and>
   isinstance not_serializable TypeError \<and>
   outcome (convert_to_line_delimited_json (PList tainted_batch)) = Inr [] \<and>
   filter is_put_object (events (upload_data_to_s3 example_config (PList tainted_batch) None)) =
     [S3PutObject (Some ''sports-analytics-data-lake'') ''raw-data/nba_player_data.jsonl'' []]"
proof -
  have g: "\<exists>s. json_dumps (player 1 ''A'' ''B'' 10) = Inr s"
    by (simp add: player_def json_dumps_def)
  then have p: "\<exists>s. json_dumps p = Inr s" if "p \<in> set [player 1 ''A'' ''B'' 10]" for p
    using that by simp
  have d: "json_dumps (PDict [(KStr ''PlayerID'', PObj)]) = Inl not_serializable"
    by (simp add: json_dumps_def)
  have t: "isinstance not_serializable TypeError"
    by (simp add: isinstance_def not_serializable_def)
  have b: "tainted_batch = [player 1 ''A'' ''B'' 10] @ PDict [(KStr ''PlayerID'', PObj)] # []"
    by (simp add: tainted_batch_def)
  show ?thesis
    using g d t
      first_rejection_decides_batch [where pre = "[player 1 ''A'' ''B'' 10]" and post = "[]"
        and cfg = example_config and a = None, OF p d]
    by (simp add: b [symmetric] example_config_def del: append.simps)
qed

subsection \<open>The query service configurator\<close>

text \<open>
  C10.  For every configuration and every answer of the provider, \<open>configure_athena\<close>
  starts exactly one query, whose statement is the fixed text
  \<open>CREATE DATABASE IF NOT EXISTS nba_analytics\<close>; the configured database name appears
  only as the execution context, next to the output location derived from the bucket
  name.  Two runs that differ in the configured database name issue the same statement.
\<close>

theorem athena_statement_fixed:
  "List.map_filter query_string (events (configure_athena cfg a)) =
     [''CREATE DATABASE IF NOT EXISTS nba_analytics''] \<and>
   List.map_filter query_context (events (configure_athena cfg a)) =
     [(glue_database_name cfg, ''s3://'' @ pystr (bucket_name cfg) @ ''/athena-results/'')] \<and>
   List.map_filter query_string (events (configure_athena (cfg\<lparr>glue_database_name := n\<rparr>) a)) =
     List.map_filter query_string (events (configure_athena (cfg\<lparr>glue_database_name := n'\<rparr>) a'))"
  by (cases a; cases a')
     (simp_all add: configure_athena_def io_defs athena_output_location_def
        List.map_filter_simps)

end
